theory Spec2Isabelle
  imports Main "HOL-Library.Word"
begin

section \<open>JavaScript strings\<close>

text \<open>
  A JavaScript string is a sequence of UTF-16 code units. String literals of the source
  are ASCII; \<open>ascii\<close> embeds an ASCII literal.
\<close>

type_synonym jschar = "16 word"
type_synonym jsstring = "jschar list"

definition ascii :: "string \<Rightarrow> jsstring" where
  "ascii s = map (\<lambda>c. of_nat (of_char c)) s"

text \<open>
  The class \<open>\s\<close> of ECMAScript (WhiteSpace and LineTerminator), which is also the set that
  \<open>String.prototype.trim\<close> removes.
\<close>

definition is_space :: "jschar \<Rightarrow> bool" where
  "is_space c =
     (c = 0x20 \<or> (0x09 \<le> c \<and> c \<le> 0x0D) \<or> c = 0xA0 \<or> c = 0x1680
      \<or> (0x2000 \<le> c \<and> c \<le> 0x200A) \<or> c = 0x2028 \<or> c = 0x2029 \<or> c = 0x202F
      \<or> c = 0x205F \<or> c = 0x3000 \<or> c = 0xFEFF)"

text \<open>The class \<open>\d\<close>.\<close>

definition is_digit :: "jschar \<Rightarrow> bool" where
  "is_digit c = (0x30 \<le> c \<and> c \<le> 0x39)"

text \<open>The class \<open>[\d,]\<close>.\<close>

definition is_digit_or_comma :: "jschar \<Rightarrow> bool" where
  "is_digit_or_comma c = (is_digit c \<or> c = 0x2C)"

text \<open>The classes \<open>[^\$]\<close>, \<open>\$\<close>, \<open>[-+]\<close> and \<open>\.\<close>.\<close>

definition not_dollar :: "jschar \<Rightarrow> bool" where
  "not_dollar c = (c \<noteq> 0x24)"

definition is_dollar :: "jschar \<Rightarrow> bool" where
  "is_dollar c = (c = 0x24)"

definition is_sign :: "jschar \<Rightarrow> bool" where
  "is_sign c = (c = 0x2D \<or> c = 0x2B)"

definition is_dot :: "jschar \<Rightarrow> bool" where
  "is_dot c = (c = 0x2E)"

text \<open>The class \<open>.\<close> (no \<open>s\<close> flag): every code unit but the four line terminators.\<close>

definition not_line_terminator :: "jschar \<Rightarrow> bool" where
  "not_line_terminator c = (c \<noteq> 0x0A \<and> c \<noteq> 0x0D \<and> c \<noteq> 0x2028 \<and> c \<noteq> 0x2029)"

text \<open>
  Case folding. The literals the source compares against are ASCII. Under the \<open>i\<close> flag
  (no \<open>u\<close> flag) a code unit above 127 never canonicalizes to an ASCII one, and
  \<open>toLowerCase\<close> maps no code unit above 127 to a letter of \<open>just a moment\<close>, so folding
  the ASCII letters decides every comparison the source makes.
\<close>

definition upper_ascii :: "jschar \<Rightarrow> jschar" where
  "upper_ascii c = (if 0x61 \<le> c \<and> c \<le> 0x7A then c - 0x20 else c)"

definition lower_ascii :: "jschar \<Rightarrow> jschar" where
  "lower_ascii c = (if 0x41 \<le> c \<and> c \<le> 0x5A then c + 0x20 else c)"

definition ci_match :: "jschar \<Rightarrow> jschar \<Rightarrow> bool" where
  "ci_match p c = (upper_ascii p = upper_ascii c)"

definition toLowerCase :: "jsstring \<Rightarrow> jsstring" where
  "toLowerCase s = map lower_ascii s"

text \<open>\<open>s.startsWith(p)\<close> and \<open>s.includes(p)\<close>.\<close>

fun starts_with :: "jsstring \<Rightarrow> jsstring \<Rightarrow> bool" where
  "starts_with s [] = True"
| "starts_with [] (p # ps) = False"
| "starts_with (c # cs) (p # ps) = (c = p \<and> starts_with cs ps)"

fun js_includes :: "jsstring \<Rightarrow> jsstring \<Rightarrow> bool" where
  "js_includes [] p = starts_with [] p"
| "js_includes (c # cs) p = (starts_with (c # cs) p \<or> js_includes cs p)"

text \<open>\<open>s.replace(/\s+/g, ' ')\<close>: every maximal run of white space becomes one space.\<close>

function collapse_spaces :: "jsstring \<Rightarrow> jsstring" where
  "collapse_spaces [] = []"
| "collapse_spaces (c # cs) =
     (if is_space c then 0x20 # collapse_spaces (dropWhile is_space cs)
      else c # collapse_spaces cs)"
  by pat_completeness auto
termination
  by (relation "measure length") (auto simp: less_Suc_eq_le length_dropWhile_le)

text \<open>\<open>s.trim()\<close>.\<close>

definition trim :: "jsstring \<Rightarrow> jsstring" where
  "trim s = rev (dropWhile is_space (rev (dropWhile is_space s)))"

text \<open>\<open>s.replace(/,/g, '')\<close>.\<close>

definition remove_commas :: "jsstring \<Rightarrow> jsstring" where
  "remove_commas s = filter (\<lambda>c. c \<noteq> 0x2C) s"

section \<open>The regular expressions of the source\<close>

text \<open>
  The patterns of \<open>index.js\<close> are sequences of three kinds of node: a literal matched
  case-insensitively (all patterns carry the \<open>i\<close> flag), a greedy repetition
  \<open>C{lo,hi}\<close> of a character class, and a non-capturing alternation of literals.
  \<open>match_here\<close> is the backtracking matcher of ECMAScript on this fragment: a repetition
  tries its longest run first and gives characters back one at a time, an alternation
  tries its branches in order. A successful match returns the text each node consumed.
\<close>

datatype node =
    Lit jsstring
  | Rep "jschar \<Rightarrow> bool" nat "nat option"
  | Alt "jsstring list"

fun lit_prefix :: "jsstring \<Rightarrow> jsstring \<Rightarrow> bool" where
  "lit_prefix [] s = True"
| "lit_prefix (p # ps) [] = False"
| "lit_prefix (p # ps) (c # cs) = (ci_match p c \<and> lit_prefix ps cs)"

fun first_some :: "('a \<Rightarrow> 'b option) \<Rightarrow> 'a list \<Rightarrow> 'b option" where
  "first_some f [] = None"
| "first_some f (x # xs) = (case f x of Some y \<Rightarrow> Some y | None \<Rightarrow> first_some f xs)"

definition rep_counts :: "(jschar \<Rightarrow> bool) \<Rightarrow> nat \<Rightarrow> nat option \<Rightarrow> jsstring \<Rightarrow> nat list" where
  "rep_counts cls lo hi s =
     (let run = length (takeWhile cls s);
          top = (case hi of None \<Rightarrow> run | Some h \<Rightarrow> min h run)
      in rev [lo ..< Suc top])"

fun match_here :: "node list \<Rightarrow> jsstring \<Rightarrow> jsstring list option" where
  "match_here [] s = Some []"
| "match_here (Lit l # r) s =
     (if lit_prefix l s
      then map_option (Cons (take (length l) s)) (match_here r (drop (length l) s))
      else None)"
| "match_here (Rep cls lo hi # r) s =
     first_some (\<lambda>n. map_option (Cons (take n s)) (match_here r (drop n s)))
       (rep_counts cls lo hi s)"
| "match_here (Alt ls # r) s =
     first_some
       (\<lambda>l. if lit_prefix l s
            then map_option (Cons (take (length l) s)) (match_here r (drop (length l) s))
            else None)
       ls"

text \<open>
  \<open>RegExp.prototype.exec\<close> without the \<open>g\<close> flag: the match at the leftmost start index
  that has one.
\<close>

fun regex_exec :: "node list \<Rightarrow> jsstring \<Rightarrow> jsstring list option" where
  "regex_exec p [] = match_here p []"
| "regex_exec p (c # cs) =
     (case match_here p (c # cs) of
        Some segs \<Rightarrow> Some segs
      | None \<Rightarrow> regex_exec p cs)"

text \<open>The text of a capture group that spans the nodes \<open>start ..< start + len\<close>.\<close>

definition group_text :: "nat \<Rightarrow> nat \<Rightarrow> jsstring list \<Rightarrow> jsstring" where
  "group_text start len segs = concat (take len (drop start segs))"

text \<open>\<open>/Total\s+([\d,]+)\s+activit(?:y|ies)/i\<close>; group 1 is node 2.\<close>

definition totalPattern :: "node list" where
  "totalPattern =
     [Lit (ascii ''Total''), Rep is_space 1 None, Rep is_digit_or_comma 1 None,
      Rep is_space 1 None, Lit (ascii ''activit''), Alt [ascii ''y'', ascii ''ies'']]"

text \<open>\<open>/More\s+than\s+([\d,]+)\s+activit(?:y|ies)/i\<close>; group 1 is node 4.\<close>

definition moreThanPattern :: "node list" where
  "moreThanPattern =
     [Lit (ascii ''More''), Rep is_space 1 None, Lit (ascii ''than''), Rep is_space 1 None,
      Rep is_digit_or_comma 1 None, Rep is_space 1 None, Lit (ascii ''activit''),
      Alt [ascii ''y'', ascii ''ies'']]"

text \<open>\<open>/Total\s+0\s+activit(?:y|ies)/i\<close>.\<close>

definition zeroPattern :: "node list" where
  "zeroPattern =
     [Lit (ascii ''Total''), Rep is_space 1 None, Lit (ascii ''0''), Rep is_space 1 None,
      Lit (ascii ''activit''), Alt [ascii ''y'', ascii ''ies'']]"

text \<open>\<open>/.{0,50}activit.{0,50}/i\<close>, the pattern of the debug log.\<close>

definition snippetPattern :: "node list" where
  "snippetPattern =
     [Rep not_line_terminator 0 (Some 50), Lit (ascii ''activit''),
      Rep not_line_terminator 0 (Some 50)]"

text \<open>\<open>/Holdings\s+PnL[^\$]*\$?([-+]?[\d,]+\.?\d*)/i\<close>; group 1 is nodes 5 to 8.\<close>

definition holdingsPnlPattern :: "node list" where
  "holdingsPnlPattern =
     [Lit (ascii ''Holdings''), Rep is_space 1 None, Lit (ascii ''PnL''),
      Rep not_dollar 0 None, Rep is_dollar 0 (Some 1),
      Rep is_sign 0 (Some 1), Rep is_digit_or_comma 1 None, Rep is_dot 0 (Some 1),
      Rep is_digit 0 None]"

section \<open>Errors and log messages\<close>

text \<open>
  A thrown value is an \<open>Error\<close> with its message, or \<open>undefined\<close> (what \<open>withRetries\<close>
  throws when its loop body never ran).
\<close>

datatype error = Error string | Undefined

text \<open>
  The \<open>TypeError\<close> of reading \<open>error.message\<close> when \<open>error\<close> is \<open>undefined\<close>.
\<close>

definition messageOfUndefined :: error where
  "messageOfUndefined = Error ''TypeError: Cannot read properties of undefined (reading message)''"

text \<open>
  One constructor per call of \<open>log\<close> in \<open>index.js\<close>, with the fields of its context object
  that the model tracks.
\<close>

datatype logmsg =
    FoundTextContainingActivit
  | NoTextContainingActivit
  | FoundActivityCount jsstring
  | FoundZeroActivities
  | AssumingZeroActivities
  | VerificationDetected string
  | RetryingAfterFailure jsstring int error
  | SavedFailureScreenshot
  | NoWalletsFound
  | SkippingEmptyWalletRow int
  | SkippingAlreadyProcessedRow int jsstring
  | ProcessingWallet int jsstring int
  | UpdatedSheetRow int jsstring jsstring
  | FatalError error

section \<open>The two extractors on the text of a page\<close>

text \<open>
  The loop \<open>for (const pattern of patterns)\<close> of \<open>extractSolscanActivities\<close>: the first
  pattern that matches gives the count, its group 1 with the commas removed. Each pattern
  comes with the node that is its group 1.
\<close>

definition activityPatterns :: "(node list \<times> nat) list" where
  "activityPatterns = [(totalPattern, 2), (moreThanPattern, 4)]"

fun firstPatternMatch :: "(node list \<times> nat) list \<Rightarrow> jsstring \<Rightarrow> jsstring option" where
  "firstPatternMatch [] cleanText = None"
| "firstPatternMatch ((pattern, g) # patterns) cleanText =
     (case regex_exec pattern cleanText of
        Some segs \<Rightarrow> Some (remove_commas (group_text g 1 segs))
      | None \<Rightarrow> firstPatternMatch patterns cleanText)"

text \<open>
  \<open>extractSolscanActivities\<close> (lines 166 to 215) as a function of \<open>page.url()\<close> and of
  \<open>page.textContent('body')\<close>: the log messages it writes, and the count it returns or the
  error it throws.
\<close>

definition activitiesFromText :: "jsstring \<Rightarrow> jsstring \<Rightarrow> logmsg list \<times> (error + jsstring)" where
  "activitiesFromText url textContent =
     (let cleanText = trim (collapse_spaces textContent);
          snippet = (if regex_exec snippetPattern cleanText \<noteq> None
                     then FoundTextContainingActivit else NoTextContainingActivit)
      in case firstPatternMatch activityPatterns cleanText of
           Some activityCount \<Rightarrow>
             ([snippet, FoundActivityCount activityCount], Inr activityCount)
         | None \<Rightarrow>
             if regex_exec zeroPattern cleanText \<noteq> None
             then ([snippet, FoundZeroActivities], Inr (ascii ''0''))
             else if js_includes url (ascii ''#activities'')
             then ([snippet, AssumingZeroActivities], Inr (ascii ''0''))
             else ([snippet],
                   Inl (Error ''Unable to locate Solscan activities section on page.'')))"

text \<open>\<open>extractJupiterHoldingsPnl\<close> (lines 217 to 232) as a function of the body text.\<close>

definition holdingsPnlFromText :: "jsstring \<Rightarrow> error + jsstring" where
  "holdingsPnlFromText textContent =
     (case regex_exec holdingsPnlPattern textContent of
        Some segs \<Rightarrow> Inr (trim (group_text 5 4 segs))
      | None \<Rightarrow> Inl (Error ''Unable to locate Holdings PnL value on page.''))"

section \<open>The browser, the sheet and the operator as an environment\<close>

text \<open>
  \<open>run\<close> is sequential, so an execution is the list of its external effects in order. An
  awaited call returns a value, throws, or never settles (\<open>promptToContinue\<close> waits for the
  operator without a timeout).
\<close>

datatype 'a result = Return 'a | Throw error | Pending

datatype event =
    Goto jsstring
  | DetectVerification
  | Prompt
  | WaitForTimeout nat
  | TextContent
  | Sleep int
  | Screenshot jsstring jsstring
  | WriteSheet int jsstring jsstring
  | Log logmsg
  | BrowserClose
  | Exit int

text \<open>
  What the world answers depends on everything that happened before: each field maps the
  events so far to the answer of the next call. \<open>goto_error\<close>, \<open>screenshot_error\<close> and
  \<open>write_error\<close> give the message of the \<open>Error\<close> that \<open>page.goto\<close>,
  \<open>captureFailureScreenshot\<close> (\<open>mkdirSync\<close> or \<open>page.screenshot\<close>) and
  \<open>sheets.spreadsheets.values.update\<close> throw, if any. The other Playwright calls are taken
  to return.
\<close>

record env =
  goto_error :: "event list \<Rightarrow> jsstring \<Rightarrow> string option"
  page_title :: "event list \<Rightarrow> jsstring"
  page_url :: "event list \<Rightarrow> jsstring"
  locator_count :: "event list \<Rightarrow> jsstring \<Rightarrow> nat"
  body_text :: "event list \<Rightarrow> jsstring"
  operator_resumes :: "event list \<Rightarrow> bool"
  screenshot_error :: "event list \<Rightarrow> string option"
  write_error :: "event list \<Rightarrow> string option"

type_synonym 'a prog = "event list \<Rightarrow> 'a result \<times> event list"

text \<open>\<open>const x = await m; f x\<close>: a throw or a promise that never settles ends the sequence.\<close>

definition await :: "'a prog \<Rightarrow> ('a \<Rightarrow> 'b prog) \<Rightarrow> 'b prog" where
  "await m f tr =
     (case m tr of
        (Return x, tr1) \<Rightarrow> f x tr1
      | (Throw e, tr1) \<Rightarrow> (Throw e, tr1)
      | (Pending, tr1) \<Rightarrow> (Pending, tr1))"

definition emit :: "event \<Rightarrow> unit prog" where
  "emit ev tr = (Return (), tr @ [ev])"

definition log :: "logmsg \<Rightarrow> unit prog" where
  "log msg = emit (Log msg)"

definition sleep :: "int \<Rightarrow> unit prog" where
  "sleep ms = emit (Sleep ms)"

definition page_goto :: "env \<Rightarrow> jsstring \<Rightarrow> unit prog" where
  "page_goto world url tr =
     (case goto_error world tr url of
        None \<Rightarrow> (Return (), tr @ [Goto url])
      | Some message \<Rightarrow> (Throw (Error message), tr @ [Goto url]))"

text \<open>\<open>writeSheetValues\<close> (lines 109 to 119).\<close>

definition writeSheetValues :: "env \<Rightarrow> int \<Rightarrow> jsstring \<Rightarrow> jsstring \<Rightarrow> unit prog" where
  "writeSheetValues world rowIndex activitiesValue pnlValue tr =
     (case write_error world tr of
        None \<Rightarrow> (Return (), tr @ [WriteSheet rowIndex activitiesValue pnlValue])
      | Some message \<Rightarrow>
          (Throw (Error message), tr @ [WriteSheet rowIndex activitiesValue pnlValue]))"

section \<open>Verification detection\<close>

text \<open>\<open>promptToContinue\<close> (lines 121 to 129).\<close>

definition promptToContinue :: "env \<Rightarrow> logmsg \<Rightarrow> unit prog" where
  "promptToContinue world message tr =
     (let tr1 = tr @ [Log message, Prompt]
      in if operator_resumes world tr1 then (Return (), tr1) else (Pending, tr1))"

definition verificationSelectors :: "jsstring list" where
  "verificationSelectors =
     [ascii ''text=verify you are human'', ascii ''text=complete the security check'',
      ascii ''#challenge-form'', ascii ''.cf-challenge-running'']"

text \<open>\<open>detectVerification\<close> (lines 131 to 158).\<close>

definition detectVerification :: "env \<Rightarrow> bool prog" where
  "detectVerification world tr =
     (let title = page_title world tr;
          url = page_url world tr
      in (Return
            (if js_includes (toLowerCase title) (ascii ''just a moment'')
                \<or> js_includes url (ascii ''challenge-platform'')
             then True
             else list_ex (\<lambda>selector. locator_count world tr selector > 0)
                    verificationSelectors),
          tr @ [DetectVerification]))"

text \<open>\<open>waitIfVerification\<close> (lines 160 to 164).\<close>

definition waitIfVerification :: "env \<Rightarrow> string \<Rightarrow> unit prog" where
  "waitIfVerification world contextLabel =
     await (detectVerification world)
       (\<lambda>detected. if detected then promptToContinue world (VerificationDetected contextLabel)
                    else Pair (Return ()))"

section \<open>The extractors on a page\<close>

text \<open>\<open>extractSolscanActivities\<close> and \<open>extractJupiterHoldingsPnl\<close> on the page of the world.\<close>

definition extractSolscanActivities :: "env \<Rightarrow> jsstring prog" where
  "extractSolscanActivities world tr =
     (let tr1 = tr @ [WaitForTimeout 3000];
          textContent = body_text world tr1;
          tr2 = tr1 @ [TextContent];
          found = activitiesFromText (page_url world tr2) textContent;
          tr3 = tr2 @ map Log (fst found)
      in case snd found of
           Inr activityCount \<Rightarrow> (Return activityCount, tr3)
         | Inl e \<Rightarrow> (Throw e, tr3))"

definition extractJupiterHoldingsPnl :: "env \<Rightarrow> jsstring prog" where
  "extractJupiterHoldingsPnl world tr =
     (let tr1 = tr @ [WaitForTimeout 3000];
          textContent = body_text world tr1;
          tr2 = tr1 @ [TextContent]
      in case holdingsPnlFromText textContent of
           Inr v \<Rightarrow> (Return v, tr2)
         | Inl e \<Rightarrow> (Throw e, tr2))"

section \<open>Retries and the failure screenshot\<close>

text \<open>
  The loop of \<open>withRetries\<close> (lines 234 to 246) from a given \<open>attempt\<close> on, with the value of
  \<open>lastError\<close>. The back-off is the literal \<open>2000 * attempt\<close> of line 242. The log line
  of the \<open>catch\<close> block reads \<open>error.message\<close>, which throws when the task threw
  \<open>undefined\<close>. An \<open>attempts\<close> that is \<open>NaN\<close> (a \<open>MAX_RETRIES\<close> that does not parse)
  behaves as one below 1: the loop condition is false at once.
\<close>

function withRetriesFrom :: "'a prog \<Rightarrow> jsstring \<Rightarrow> int \<Rightarrow> int \<Rightarrow> error \<Rightarrow> 'a prog" where
  "withRetriesFrom task label attempts attempt lastError tr =
     (if attempt \<le> attempts then
        (case task tr of
           (Return v, tr1) \<Rightarrow> (Return v, tr1)
         | (Pending, tr1) \<Rightarrow> (Pending, tr1)
         | (Throw Undefined, tr1) \<Rightarrow> (Throw messageOfUndefined, tr1)
         | (Throw (Error message), tr1) \<Rightarrow>
             withRetriesFrom task label attempts (attempt + 1) (Error message)
               (tr1 @ [Log (RetryingAfterFailure label attempt (Error message)),
                       Sleep (2000 * attempt)]))
      else (Throw lastError, tr))"
  by pat_completeness auto
termination
  by (relation "measure (\<lambda>(task, label, attempts, attempt, lastError, tr).
        nat (attempts + 1 - attempt))") auto

definition withRetries :: "'a prog \<Rightarrow> jsstring \<Rightarrow> int \<Rightarrow> 'a prog" where
  "withRetries task label attempts = withRetriesFrom task label attempts 1 Undefined"

text \<open>\<open>captureFailureScreenshot\<close> (lines 254 to 260).\<close>

definition captureFailureScreenshot :: "env \<Rightarrow> jsstring \<Rightarrow> jsstring \<Rightarrow> unit prog" where
  "captureFailureScreenshot world wallet label tr =
     (case screenshot_error world tr of
        Some message \<Rightarrow> (Throw (Error message), tr @ [Screenshot wallet label])
      | None \<Rightarrow> (Return (), tr @ [Screenshot wallet label, Log SavedFailureScreenshot]))"

text \<open>
  The handler of lines 303 to 306 and 319 to 322:
  \<open>.catch(async (error) => { await captureFailureScreenshot(page, wallet, label); throw error; })\<close>.
\<close>

definition catchWithScreenshot :: "env \<Rightarrow> jsstring \<Rightarrow> jsstring \<Rightarrow> 'a prog \<Rightarrow> 'a prog" where
  "catchWithScreenshot world wallet label p tr =
     (case p tr of
        (Throw error, tr1) \<Rightarrow>
          (case captureFailureScreenshot world wallet label tr1 of
             (Return u, tr2) \<Rightarrow> (Throw error, tr2)
           | (Throw captureError, tr2) \<Rightarrow> (Throw captureError, tr2)
           | (Pending, tr2) \<Rightarrow> (Pending, tr2))
      | (Return v, tr1) \<Rightarrow> (Return v, tr1)
      | (Pending, tr1) \<Rightarrow> (Pending, tr1))"

section \<open>The wallet loop of \<open>run\<close>\<close>

text \<open>The fields of \<open>CONFIG\<close> that are numbers.\<close>

record config =
  startRow :: int
  rateLimitMs :: int
  maxRetries :: int
  timeoutMs :: int

text \<open>
  An entry of \<open>wallets\<close>; a field is \<open>None\<close> when it is \<open>undefined\<close> (a missing cell, or any
  result field of an entry read from the CSV file).
\<close>

record walletEntry =
  wallet :: "jsstring option"
  activities :: "jsstring option"
  holdingsPnl :: "jsstring option"
  rowIndex :: int

text \<open>Truthiness of a string or \<open>undefined\<close>.\<close>

definition truthy :: "jsstring option \<Rightarrow> bool" where
  "truthy v = (case v of None \<Rightarrow> False | Some s \<Rightarrow> s \<noteq> [])"

definition solscanUrl :: "jsstring \<Rightarrow> jsstring" where
  "solscanUrl w = ascii ''https://solscan.io/account/'' @ w @ ascii ''#activities''"

definition jupiterUrl :: "jsstring \<Rightarrow> jsstring" where
  "jupiterUrl w = ascii ''https://jup.ag/portfolio/'' @ w"

text \<open>The two tasks handed to \<open>withRetries\<close> (lines 295 to 301 and 311 to 317).\<close>

definition solscanTask :: "env \<Rightarrow> jsstring \<Rightarrow> jsstring prog" where
  "solscanTask world w =
     await (page_goto world (solscanUrl w))
       (\<lambda>_. await (waitIfVerification world ''Solscan'')
          (\<lambda>_. extractSolscanActivities world))"

definition jupiterTask :: "env \<Rightarrow> jsstring \<Rightarrow> jsstring prog" where
  "jupiterTask world w =
     await (page_goto world (jupiterUrl w))
       (\<lambda>_. await (waitIfVerification world ''Jupiter'')
          (\<lambda>_. extractJupiterHoldingsPnl world))"

text \<open>The two awaited expressions of lines 294 to 306 and 310 to 322.\<close>

definition fetchActivities :: "config \<Rightarrow> env \<Rightarrow> jsstring \<Rightarrow> jsstring prog" where
  "fetchActivities cfg world w =
     catchWithScreenshot world w (ascii ''solscan'')
       (withRetries (solscanTask world w) (ascii ''solscan-'' @ w) (maxRetries cfg))"

definition fetchHoldingsPnl :: "config \<Rightarrow> env \<Rightarrow> jsstring \<Rightarrow> jsstring prog" where
  "fetchHoldingsPnl cfg world w =
     catchWithScreenshot world w (ascii ''jupiter'')
       (withRetries (jupiterTask world w) (ascii ''jupiter-'' @ w) (maxRetries cfg))"

text \<open>The body of the loop over \<open>wallets.entries()\<close> (lines 281 to 327).\<close>

definition processWallet :: "config \<Rightarrow> env \<Rightarrow> nat \<Rightarrow> walletEntry \<Rightarrow> unit prog" where
  "processWallet cfg world index walletEntry =
     (if \<not> truthy (wallet walletEntry)
      then log (SkippingEmptyWalletRow (rowIndex walletEntry))
      else if truthy (activities walletEntry) \<and> truthy (holdingsPnl walletEntry)
      then log (SkippingAlreadyProcessedRow (rowIndex walletEntry) (the (wallet walletEntry)))
      else
        await (log (ProcessingWallet (int index + 1) (the (wallet walletEntry))
                 (rowIndex walletEntry)))
          (\<lambda>_. await (fetchActivities cfg world (the (wallet walletEntry)))
            (\<lambda>activitiesValue. await (sleep (rateLimitMs cfg))
              (\<lambda>_. await (fetchHoldingsPnl cfg world (the (wallet walletEntry)))
                (\<lambda>pnlValue.
                   await (writeSheetValues world (rowIndex walletEntry) activitiesValue pnlValue)
                     (\<lambda>_. await (log (UpdatedSheetRow (rowIndex walletEntry)
                                     activitiesValue pnlValue))
                        (\<lambda>_. sleep (rateLimitMs cfg))))))))"

fun processWallets :: "config \<Rightarrow> env \<Rightarrow> nat \<Rightarrow> walletEntry list \<Rightarrow> unit prog" where
  "processWallets cfg world index [] = Pair (Return ())"
| "processWallets cfg world index (walletEntry # rest) =
     await (processWallet cfg world index walletEntry)
       (\<lambda>_. processWallets cfg world (Suc index) rest)"

text \<open>
  \<open>run\<close> from the point where \<open>wallets\<close> is loaded (lines 270 to 330), and the handler of
  lines 333 to 336 around it. The handler reads \<open>error.message\<close> before it logs: when
  \<open>run\<close> threw \<open>undefined\<close> the handler throws, nothing is logged and the rejection is
  left unhandled.
\<close>

definition run :: "config \<Rightarrow> env \<Rightarrow> walletEntry list \<Rightarrow> unit prog" where
  "run cfg world wallets =
     (if wallets = [] then log NoWalletsFound
      else await (processWallets cfg world 0 wallets) (\<lambda>_. emit BrowserClose))"

definition main :: "config \<Rightarrow> env \<Rightarrow> walletEntry list \<Rightarrow> unit prog" where
  "main cfg world wallets tr =
     (case run cfg world wallets tr of
        (Throw (Error message), tr1) \<Rightarrow>
          (Return (), tr1 @ [Log (FatalError (Error message)), Exit 1])
      | (Throw Undefined, tr1) \<Rightarrow> (Throw messageOfUndefined, tr1)
      | (Return u, tr1) \<Rightarrow> (Return u, tr1)
      | (Pending, tr1) \<Rightarrow> (Pending, tr1))"

section \<open>Vocabulary of the claims\<close>

subsection \<open>Phrases in a text\<close>








subsection \<open>A scripted operation for the retry wrapper\<close>

text \<open>
  An operation whose \<open>k\<close>-th invocation navigates to \<open>url\<close> and then returns or throws
  what \<open>outcomes k\<close> says (\<open>k\<close> counts from 1; a throw is an \<open>Error\<close> with a message). The number of \<open>Goto url\<close> events of a trace
  is the number of times the operation was invoked.
\<close>

definition mockOperation :: "jsstring \<Rightarrow> (nat \<Rightarrow> string + 'a) \<Rightarrow> 'a prog" where
  "mockOperation url outcomes tr =
     (case outcomes (Suc (count_list tr (Goto url))) of
        Inr v \<Rightarrow> (Return v, tr @ [Goto url])
      | Inl message \<Rightarrow> (Throw (Error message), tr @ [Goto url]))"

text \<open>
  What \<open>withRetries\<close> leaves in the trace for a failed attempt \<open>k\<close>: the invocation, the log
  line and the back-off sleep.
\<close>

definition failedAttempt :: "jsstring \<Rightarrow> jsstring \<Rightarrow> (nat \<Rightarrow> string) \<Rightarrow> nat \<Rightarrow> event list" where
  "failedAttempt url label errs k =
     [Goto url, Log (RetryingAfterFailure label (int k) (Error (errs k))), Sleep (2000 * int k)]"

definition failedAttempts :: "jsstring \<Rightarrow> jsstring \<Rightarrow> (nat \<Rightarrow> string) \<Rightarrow> nat \<Rightarrow> nat \<Rightarrow> event list" where
  "failedAttempts url label errs c m =
     concat (map (failedAttempt url label errs) [Suc c ..< Suc (c + m)])"

fun is_screenshot :: "event \<Rightarrow> bool" where
  "is_screenshot (Screenshot w l) = True"
| "is_screenshot ev = False"

fun is_sleep :: "event \<Rightarrow> bool" where
  "is_sleep (Sleep ms) = True"
| "is_sleep ev = False"

definition screenshots :: "event list \<Rightarrow> nat" where
  "screenshots tr = length (filter is_screenshot tr)"

text \<open>
  The scripted operation under \<open>withRetries\<close> and the screenshot handler, as \<open>run\<close> wraps
  its two tasks; and a world in which nothing fails and no page shows anything.
\<close>

definition mockFetch ::
  "env \<Rightarrow> jsstring \<Rightarrow> jsstring \<Rightarrow> jsstring \<Rightarrow> (nat \<Rightarrow> string + 'a) \<Rightarrow> jsstring \<Rightarrow> int \<Rightarrow> 'a prog" where
  "mockFetch world w lab url outcomes label attempts =
     catchWithScreenshot world w lab (withRetries (mockOperation url outcomes) label attempts)"

definition quietWorld :: env where
  "quietWorld =
     \<lparr>goto_error = (\<lambda>tr url. None), page_title = (\<lambda>tr. []), page_url = (\<lambda>tr. []),
      locator_count = (\<lambda>tr selector. 0), body_text = (\<lambda>tr. []),
      operator_resumes = (\<lambda>tr. True), screenshot_error = (\<lambda>tr. None),
      write_error = (\<lambda>tr. None)\<rparr>"

subsection \<open>A wallet iteration\<close>

text \<open>
  The sheet writes of a trace, and the trace of a wallet iteration once it has logged
  \<open>Processing wallet\<close>.
\<close>

fun is_write :: "event \<Rightarrow> bool" where
  "is_write (WriteSheet r a p) = True"
| "is_write ev = False"

definition processingTrace :: "nat \<Rightarrow> walletEntry \<Rightarrow> event list \<Rightarrow> event list" where
  "processingTrace index e tr =
     tr @ [Log (ProcessingWallet (int index + 1) (the (wallet e)) (rowIndex e))]"

definition writes :: "event list \<Rightarrow> event list" where
  "writes tr = filter is_write tr"

subsection \<open>Worlds, entries and a configuration to run the model on\<close>

text \<open>
  \<open>fullDiskWorld\<close>: every page shows \<open>Loading...\<close> and every screenshot fails. \<open>offlineWorld\<close>: every navigation fails.
  \<open>challengeWorld\<close>: every page carries the title of a challenge page.
  \<open>happyWorld\<close>: every page shows an activity count and a holdings figure.
\<close>

definition fullDiskWorld :: env where
  "fullDiskWorld =
     quietWorld\<lparr>body_text := (\<lambda>tr. ascii ''Loading...''),
                screenshot_error := (\<lambda>tr. Some ''ENOSPC'')\<rparr>"

definition offlineWorld :: env where
  "offlineWorld = quietWorld\<lparr>goto_error := (\<lambda>tr url. Some ''net::ERR_INTERNET_DISCONNECTED'')\<rparr>"

definition challengeWorld :: env where
  "challengeWorld =
     quietWorld\<lparr>page_title := (\<lambda>tr. ascii ''Just a moment...''),
                body_text := (\<lambda>tr. ascii ''Total 5 activities'')\<rparr>"

definition happyWorld :: env where
  "happyWorld = quietWorld\<lparr>body_text := (\<lambda>tr. ascii ''Total 5 activities Holdings PnL $1.50'')\<rparr>"

definition newEntry :: walletEntry where
  "newEntry = \<lparr>wallet = Some (ascii ''w''), activities = None, holdingsPnl = None, rowIndex = 2\<rparr>"

definition doneEntry :: walletEntry where
  "doneEntry = \<lparr>wallet = Some (ascii ''v''), activities = Some (ascii ''5''),
                 holdingsPnl = Some (ascii ''1.50''), rowIndex = 2\<rparr>"

definition emptyEntry :: walletEntry where
  "emptyEntry = \<lparr>wallet = None, activities = None, holdingsPnl = None, rowIndex = 3\<rparr>"

definition testConfig :: config where
  "testConfig = \<lparr>startRow = 2, rateLimitMs = 500, maxRetries = 2, timeoutMs = 45000\<rparr>"

section \<open>The matcher against the declarative reading of a pattern\<close>

















































section \<open>Claims about the extractors\<close>

text \<open>
  The count the extractor returns for a phrase whose number consists of commas only.
\<close>

lemma activities_commas_only:
  "snd (activitiesFromText (ascii ''https://solscan.io/account/w#activities'')
         (ascii ''Total , activities'')) = Inr []"
  by code_simp




text \<open>
  The Holdings PnL extractor on the example of the specification, and on a page without
  the label.
\<close>

lemma holdingsPnl_with_currency_symbol:
  "holdingsPnlFromText (ascii ''Holdings PnL $-1,234.56'') = Inr (ascii ''-1,234.56'')"
  by code_simp

lemma holdingsPnl_without_label:
  "holdingsPnlFromText (ascii ''Portfolio value $10'') =
     Inl (Error ''Unable to locate Holdings PnL value on page.'')"
  by code_simp

text \<open>
  A sign in front of the currency symbol is skipped with the text before the symbol, and
  a currency symbol further down the page attracts the match.
\<close>

lemma holdingsPnl_sign_before_currency_symbol:
  "holdingsPnlFromText (ascii ''Holdings PnL -$1,234.56'') = Inr (ascii ''1,234.56'')"
  by code_simp

lemma holdingsPnl_later_currency_symbol:
  "holdingsPnlFromText (ascii ''Holdings PnL 1,234.56 Fees $0.25'') = Inr (ascii ''0.25'')"
  by code_simp

text \<open>
  Claim C2 at a page that shows the label followed by a signed number without a currency
  symbol: \<open>[^\$]*\<close> is greedy and runs to the end of the text, and the matcher gives back
  only as many characters as \<open>[\d,]+\<close> needs, so the extractor returns the last digit \<open>6\<close>
  instead of \<open>-1,234.56\<close>.
\<close>

theorem holdingsPnl_without_currency_symbol:
  "holdingsPnlFromText (ascii ''Holdings PnL -1,234.56'') = Inr (ascii ''6'')"
  by code_simp

section \<open>The retry loop on a scripted operation\<close>

declare withRetriesFrom.simps [simp del]

lemma withRetriesFrom_done:
  "attempts < attempt \<Longrightarrow> withRetriesFrom task label attempts attempt lastError tr = (Throw lastError, tr)"
  by (simp add: withRetriesFrom.simps)

lemma withRetriesFrom_step:
  "attempt \<le> attempts \<Longrightarrow>
   withRetriesFrom task label attempts attempt lastError tr =
     (case task tr of
        (Return v, tr1) \<Rightarrow> (Return v, tr1)
      | (Pending, tr1) \<Rightarrow> (Pending, tr1)
      | (Throw Undefined, tr1) \<Rightarrow> (Throw messageOfUndefined, tr1)
      | (Throw (Error message), tr1) \<Rightarrow>
          withRetriesFrom task label attempts (attempt + 1) (Error message)
            (tr1 @ [Log (RetryingAfterFailure label attempt (Error message)),
                    Sleep (2000 * attempt)]))"
  by (subst withRetriesFrom.simps) simp

lemma failedAttempts_0: "failedAttempts url label errs c 0 = []"
  by (simp add: failedAttempts_def)

lemma failedAttempts_Suc_front:
  "failedAttempts url label errs c (Suc m) =
     failedAttempt url label errs (Suc c) @ failedAttempts url label errs (Suc c) m"
proof -
  have "[Suc c ..< Suc (c + Suc m)] = Suc c # [Suc (Suc c) ..< Suc (Suc c + m)]"
    by (simp add: upt_conv_Cons del: upt_Suc)
  then show ?thesis
    by (simp add: failedAttempts_def del: upt_Suc)
qed

lemma failedAttempts_Suc_back:
  "failedAttempts url label errs c (Suc m) =
     failedAttempts url label errs c m @ failedAttempt url label errs (Suc (c + m))"
  by (simp add: failedAttempts_def)

lemma count_failedAttempt: "count_list (failedAttempt url label errs k) (Goto url) = 1"
  by (simp add: failedAttempt_def)

lemma count_failedAttempts: "count_list (failedAttempts url label errs c m) (Goto url) = m"
  by (induction m) (simp_all add: failedAttempts_0 failedAttempts_Suc_back count_failedAttempt)

lemma retry_failures:
  assumes "count_list tr (Goto url) = c"
    and "\<forall>j. c < j \<and> j \<le> c + m \<longrightarrow> outcomes j = Inl (errs j)"
    and "int (c + m) \<le> attempts"
  shows "withRetriesFrom (mockOperation url outcomes) label attempts (int c + 1) lastErr tr =
         withRetriesFrom (mockOperation url outcomes) label attempts (int (c + m) + 1)
           (if m = 0 then lastErr else Error (errs (c + m))) (tr @ failedAttempts url label errs c m)"
  using assms
proof (induction m arbitrary: c tr lastErr)
  case 0
  then show ?case by (simp add: failedAttempts_0)
next
  case (Suc m)
  let ?tr1 = "tr @ failedAttempt url label errs (Suc c)"
  have out: "outcomes (Suc c) = Inl (errs (Suc c))" using Suc.prems(2) by simp
  have le: "int c + 1 \<le> attempts" using Suc.prems(3) by simp
  have step: "withRetriesFrom (mockOperation url outcomes) label attempts (int c + 1) lastErr tr =
      withRetriesFrom (mockOperation url outcomes) label attempts (int (Suc c) + 1) (Error (errs (Suc c))) ?tr1"
    using out Suc.prems(1)
    by (subst withRetriesFrom_step[OF le]) (simp add: mockOperation_def failedAttempt_def ac_simps)
  have c1: "count_list ?tr1 (Goto url) = Suc c"
    using Suc.prems(1) by (simp add: count_failedAttempt)
  have f1: "\<forall>j. Suc c < j \<and> j \<le> Suc c + m \<longrightarrow> outcomes j = Inl (errs j)"
    using Suc.prems(2) by simp
  have l1: "int (Suc c + m) \<le> attempts" using Suc.prems(3) by simp
  have "withRetriesFrom (mockOperation url outcomes) label attempts (int (Suc c) + 1) (Error (errs (Suc c))) ?tr1 =
      withRetriesFrom (mockOperation url outcomes) label attempts (int (Suc c + m) + 1)
        (if m = 0 then Error (errs (Suc c)) else Error (errs (Suc c + m))) (?tr1 @ failedAttempts url label errs (Suc c) m)"
    using Suc.IH[OF c1 f1 l1] .
  moreover have "(if m = 0 then Error (errs (Suc c)) else Error (errs (Suc c + m))) = Error (errs (c + Suc m))"
    by simp
  ultimately show ?case
    using step by (simp add: failedAttempts_Suc_front)
qed

lemma screenshots_append: "screenshots (xs @ ys) = screenshots xs + screenshots ys"
  by (simp add: screenshots_def)

lemma screenshots_failedAttempts: "screenshots (failedAttempts url label errs c m) = 0"
  by (induction m)
    (simp_all add: failedAttempts_0 failedAttempts_Suc_back screenshots_def failedAttempt_def)

lemma sleeps_failedAttempts:
  "filter is_sleep (failedAttempts url label errs c m) =
     map (\<lambda>k. Sleep (2000 * int k)) [Suc c ..< Suc (c + m)]"
  by (induction m) (simp_all add: failedAttempts_0 failedAttempts_Suc_back failedAttempt_def)

lemma retry_success:
  assumes "count_list tr (Goto url) = 0"
    and "\<forall>j. 0 < j \<and> j \<le> m \<longrightarrow> outcomes j = Inl (errs j)"
    and "outcomes (Suc m) = Inr v"
    and "int (Suc m) \<le> attempts"
  shows "withRetries (mockOperation url outcomes) label attempts tr =
         (Return v, tr @ failedAttempts url label errs 0 m @ [Goto url])"
proof -
  have le: "int (0 + m) \<le> attempts" using assms(4) by simp
  have f: "\<forall>j. 0 < j \<and> j \<le> 0 + m \<longrightarrow> outcomes j = Inl (errs j)" using assms(2) by simp
  have c: "count_list (tr @ failedAttempts url label errs 0 m) (Goto url) = m"
    using assms(1) by (simp add: count_failedAttempts)
  have le2: "int (0 + m) + 1 \<le> attempts" using assms(4) by simp
  have "withRetries (mockOperation url outcomes) label attempts tr =
      withRetriesFrom (mockOperation url outcomes) label attempts (int (0 + m) + 1)
        (if m = 0 then Undefined else Error (errs (0 + m))) (tr @ failedAttempts url label errs 0 m)"
    unfolding withRetries_def
    using retry_failures[OF assms(1) f le, of label Undefined] by simp
  also have "\<dots> = (Return v, tr @ failedAttempts url label errs 0 m @ [Goto url])"
    using c assms(3)
    by (subst withRetriesFrom_step[OF le2]) (simp add: mockOperation_def)
  finally show ?thesis .
qed

lemma retry_exhausted:
  assumes "count_list tr (Goto url) = 0"
    and "\<forall>j. 0 < j \<and> j \<le> n \<longrightarrow> outcomes j = Inl (errs j)"
    and "attempts = int n"
  shows "withRetries (mockOperation url outcomes) label attempts tr =
         (Throw (if n = 0 then Undefined else Error (errs n)), tr @ failedAttempts url label errs 0 n)"
proof -
  have le: "int (0 + n) \<le> attempts" using assms(3) by simp
  have f: "\<forall>j. 0 < j \<and> j \<le> 0 + n \<longrightarrow> outcomes j = Inl (errs j)" using assms(2) by simp
  have lt: "attempts < int (0 + n) + 1" using assms(3) by simp
  have "withRetries (mockOperation url outcomes) label attempts tr =
      withRetriesFrom (mockOperation url outcomes) label attempts (int (0 + n) + 1)
        (if n = 0 then Undefined else Error (errs (0 + n))) (tr @ failedAttempts url label errs 0 n)"
    unfolding withRetries_def
    using retry_failures[OF assms(1) f le, of label Undefined] by simp
  also have "\<dots> = (Throw (if n = 0 then Undefined else Error (errs n)),
      tr @ failedAttempts url label errs 0 n)"
    by (subst withRetriesFrom_done[OF lt]) simp
  finally show ?thesis .
qed

lemma mock_retry_extends:
  "\<exists>rest. snd (withRetriesFrom (mockOperation url outcomes) label attempts attempt lastErr tr) = tr @ rest"
proof (induction "mockOperation url outcomes :: 'a prog" label attempts attempt lastErr tr
    rule: withRetriesFrom.induct)
  case (1 label attempts attempt lastError tr)
  show ?case
  proof (cases "attempt \<le> attempts")
    case False
    then show ?thesis by (simp add: withRetriesFrom_done)
  next
    case True
    show ?thesis
    proof (cases "outcomes (Suc (count_list tr (Goto url)))")
      case (Inr v)
      then show ?thesis
        by (subst withRetriesFrom_step[OF True]) (simp add: mockOperation_def)
    next
      case (Inl e)
      then have t: "mockOperation url outcomes tr = (Throw (Error e), tr @ [Goto url])"
        by (simp add: mockOperation_def)
      from "1"[OF True t[symmetric] refl refl] obtain rest where
        "snd (withRetriesFrom (mockOperation url outcomes) label attempts (attempt + 1) (Error e)
           ((tr @ [Goto url]) @ [Log (RetryingAfterFailure label attempt (Error e)),
              Sleep (2000 * attempt)])) =
         ((tr @ [Goto url]) @ [Log (RetryingAfterFailure label attempt (Error e)),
              Sleep (2000 * attempt)]) @ rest"
        by blast
      then show ?thesis
        by (subst withRetriesFrom_step[OF True]) (simp add: t)
    qed
  qed
qed

lemma screenshots_Nil: "screenshots [] = 0"
  by (simp add: screenshots_def)

lemma screenshots_Cons: "screenshots (ev # tr) = (if is_screenshot ev then 1 else 0) + screenshots tr"
  by (simp add: screenshots_def)

section \<open>Claims about the retry wrapper\<close>

text \<open>
  Claim C3, as amended. For every scripted operation and every number of attempts of at
  least 1: if the operation fails on attempts \<open>1..k-1\<close> and succeeds on attempt \<open>k\<close> within
  the bound, the wrapper invokes it exactly \<open>k\<close> times, takes no screenshot and returns the
  result; if it fails on every attempt, the wrapper invokes it exactly \<open>maxAttempts\<close> times
  and calls the screenshot capture exactly once, and then throws the last error of the
  operation if the capture returned, the error of the capture if the capture threw.
\<close>

theorem retry_wrapper_invocations:
  assumes "count_list tr (Goto url) = 0"
  shows "((\<forall>j. 0 < j \<and> j < k \<longrightarrow> outcomes j = Inl (errs j)) \<and> outcomes k = Inr v
            \<and> 0 < k \<and> int k \<le> attempts \<longrightarrow>
          fst (mockFetch world w lab url outcomes label attempts tr) = Return v
          \<and> count_list (snd (mockFetch world w lab url outcomes label attempts tr)) (Goto url) = k
          \<and> screenshots (snd (mockFetch world w lab url outcomes label attempts tr)) = screenshots tr)
       \<and> ((\<forall>j. 0 < j \<and> j \<le> n \<longrightarrow> outcomes j = Inl (errs j)) \<and> 0 < n \<and> attempts = int n \<longrightarrow>
          count_list (snd (mockFetch world w lab url outcomes label attempts tr)) (Goto url) = n
          \<and> screenshots (snd (mockFetch world w lab url outcomes label attempts tr)) = screenshots tr + 1
          \<and> fst (mockFetch world w lab url outcomes label attempts tr) =
              Throw (case screenshot_error world (tr @ failedAttempts url label errs 0 n) of
                       None \<Rightarrow> Error (errs n) | Some message \<Rightarrow> Error message))"
proof (intro conjI impI)
  assume h: "(\<forall>j. 0 < j \<and> j < k \<longrightarrow> outcomes j = Inl (errs j)) \<and> outcomes k = Inr v
            \<and> 0 < k \<and> int k \<le> attempts"
  then obtain m where k: "k = Suc m" by (cases k) auto
  from h k have f: "\<forall>j. 0 < j \<and> j \<le> m \<longrightarrow> outcomes j = Inl (errs j)" by auto
  from h k have o: "outcomes (Suc m) = Inr v" and le: "int (Suc m) \<le> attempts" by auto
  note r = retry_success[OF assms f o le, of label]
  have m: "mockFetch world w lab url outcomes label attempts tr =
      (Return v, tr @ failedAttempts url label errs 0 m @ [Goto url])"
    by (simp add: mockFetch_def catchWithScreenshot_def r)
  show "fst (mockFetch world w lab url outcomes label attempts tr) = Return v"
    by (simp add: m)
  show "count_list (snd (mockFetch world w lab url outcomes label attempts tr)) (Goto url) = k"
    using assms by (simp add: m k count_failedAttempts)
  show "screenshots (snd (mockFetch world w lab url outcomes label attempts tr)) = screenshots tr"
    by (simp add: m screenshots_append screenshots_failedAttempts screenshots_Nil screenshots_Cons)
next
  assume h: "(\<forall>j. 0 < j \<and> j \<le> n \<longrightarrow> outcomes j = Inl (errs j)) \<and> 0 < n \<and> attempts = int n"
  then have f: "\<forall>j. 0 < j \<and> j \<le> n \<longrightarrow> outcomes j = Inl (errs j)" and a: "attempts = int n"
    and n: "n \<noteq> 0" by auto
  note r = retry_exhausted[OF assms f a, of label]
  let ?tr1 = "tr @ failedAttempts url label errs 0 n"
  have m: "mockFetch world w lab url outcomes label attempts tr =
      (case screenshot_error world ?tr1 of
         None \<Rightarrow> (Throw (Error (errs n)), ?tr1 @ [Screenshot w lab, Log SavedFailureScreenshot])
       | Some message \<Rightarrow> (Throw (Error message), ?tr1 @ [Screenshot w lab]))"
    using n by (simp add: mockFetch_def catchWithScreenshot_def r captureFailureScreenshot_def
        split: option.splits)
  show "count_list (snd (mockFetch world w lab url outcomes label attempts tr)) (Goto url) = n"
    using assms by (simp add: m count_failedAttempts split: option.splits)
  show "screenshots (snd (mockFetch world w lab url outcomes label attempts tr)) = screenshots tr + 1"
    by (simp add: m screenshots_append screenshots_failedAttempts screenshots_Nil
        screenshots_Cons split: option.splits)
  show "fst (mockFetch world w lab url outcomes label attempts tr) =
      Throw (case screenshot_error world ?tr1 of None \<Rightarrow> Error (errs n) | Some message \<Rightarrow> Error message)"
    by (simp add: m split: option.splits)
qed

text \<open>Three attempts: two failures then a success, and three failures.\<close>

theorem retry_wrapper_invocations_witness:
  "fst (mockFetch quietWorld (ascii ''w'') (ascii ''solscan'') (ascii ''u'')
          (\<lambda>j. if j < 3 then Inl ''timeout'' else Inr (ascii ''42''))
          (ascii ''solscan-w'') 3 []) = Return (ascii ''42'')
   \<and> count_list (snd (mockFetch quietWorld (ascii ''w'') (ascii ''solscan'') (ascii ''u'')
          (\<lambda>j. if j < 3 then Inl ''timeout'' else Inr (ascii ''42''))
          (ascii ''solscan-w'') 3 [])) (Goto (ascii ''u'')) = 3
   \<and> screenshots (snd (mockFetch quietWorld (ascii ''w'') (ascii ''solscan'') (ascii ''u'')
          (\<lambda>j. if j < 3 then Inl ''timeout'' else Inr (ascii ''42''))
          (ascii ''solscan-w'') 3 [])) = 0
   \<and> count_list (snd (mockFetch quietWorld (ascii ''w'') (ascii ''solscan'') (ascii ''u'')
          (\<lambda>j. Inl ''timeout'' :: string + jsstring)
          (ascii ''solscan-w'') 3 [])) (Goto (ascii ''u'')) = 3
   \<and> screenshots (snd (mockFetch quietWorld (ascii ''w'') (ascii ''solscan'') (ascii ''u'')
          (\<lambda>j. Inl ''timeout'' :: string + jsstring)
          (ascii ''solscan-w'') 3 [])) = 1
   \<and> fst (mockFetch quietWorld (ascii ''w'') (ascii ''solscan'') (ascii ''u'')
          (\<lambda>j. Inl ''timeout'' :: string + jsstring)
          (ascii ''solscan-w'') 3 []) = Throw (Error ''timeout'')"
proof -
  have fresh: "count_list [] (Goto (ascii ''u'')) = 0" by simp
  note t = retry_wrapper_invocations[OF fresh]
  have a: "(\<forall>j. 0 < j \<and> j < (3::nat) \<longrightarrow>
        (if j < 3 then Inl ''timeout'' else Inr (ascii ''42'')) = Inl ''timeout'')
      \<and> (if (3::nat) < 3 then Inl ''timeout'' else Inr (ascii ''42'')) = Inr (ascii ''42'')
      \<and> 0 < (3::nat) \<and> int 3 \<le> 3"
    by simp
  have b: "(\<forall>j. 0 < j \<and> j \<le> (3::nat) \<longrightarrow> (Inl ''timeout'' :: string + jsstring) = Inl ''timeout'')
      \<and> 0 < (3::nat) \<and> (3::int) = int 3"
    by simp
  from t[THEN conjunct1, rule_format, of 3 "\<lambda>j. if j < 3 then Inl ''timeout'' else Inr (ascii ''42'')"
      "\<lambda>j. ''timeout''" "ascii ''42''" 3, OF a]
    t[THEN conjunct2, rule_format, of 3 "\<lambda>j. Inl ''timeout''" "\<lambda>j. ''timeout''" 3
      quietWorld "ascii ''w''" "ascii ''solscan''" "ascii ''solscan-w''", OF b]
  show ?thesis
    by (simp add: screenshots_Nil quietWorld_def)
qed

text \<open>
  Claim C3 as stated promises the last error of the operation on exhaustion. Where the
  capture throws, the wrapper throws the error of the capture.
\<close>

theorem capture_error_replaces_last_error_counterexample:
  "fst (mockFetch fullDiskWorld (ascii ''w'') (ascii ''solscan'') (ascii ''u'')
          (\<lambda>j. Inl ''timeout'' :: string + jsstring) (ascii ''solscan-w'') 3 [])
     = Throw (Error ''ENOSPC'')"
  by code_simp

text \<open>
  Claim C4, as amended. For every attempt index \<open>k\<close> with \<open>1 \<le> k < maxAttempts\<close>, between
  the failed attempt \<open>k\<close> and attempt \<open>k + 1\<close> the wrapper writes one log line and sleeps
  \<open>2000 * k\<close> milliseconds: linear in the attempt index, with the base the literal \<open>2000\<close>
  of line 242. The base is no field of the configuration: the two fetch steps of \<open>run\<close>
  depend on \<open>CONFIG\<close> through \<open>maxRetries\<close> alone.
\<close>

theorem backoff_between_attempts:
  assumes "count_list tr (Goto url) = 0"
    and "\<forall>j. 0 < j \<and> j \<le> k \<longrightarrow> outcomes j = Inl (errs j)"
    and "0 < k" and "int k < attempts"
  shows "(\<exists>rest. snd (withRetries (mockOperation url outcomes) label attempts tr) =
            tr @ failedAttempts url label errs 0 (k - 1)
              @ [Goto url, Log (RetryingAfterFailure label (int k) (Error (errs k))),
                 Sleep (2000 * int k), Goto url] @ rest)
       \<and> (\<forall>cfg cfg'. maxRetries cfg = maxRetries cfg' \<longrightarrow>
            fetchActivities cfg world w = fetchActivities cfg' world w
            \<and> fetchHoldingsPnl cfg world w = fetchHoldingsPnl cfg' world w)"
proof
  obtain m where k: "k = Suc m" using assms(3) by (cases k) auto
  have le: "int (0 + k) \<le> attempts" using assms(4) by simp
  have f: "\<forall>j. 0 < j \<and> j \<le> 0 + k \<longrightarrow> outcomes j = Inl (errs j)" using assms(2) by simp
  let ?tr1 = "tr @ failedAttempts url label errs 0 k"
  have c: "count_list ?tr1 (Goto url) = k"
    using assms(1) by (simp add: count_failedAttempts)
  have le2: "int (0 + k) + 1 \<le> attempts" using assms(4) by simp
  have w: "withRetries (mockOperation url outcomes) label attempts tr =
      withRetriesFrom (mockOperation url outcomes) label attempts (int (0 + k) + 1) (Error (errs k)) ?tr1"
    unfolding withRetries_def
    using retry_failures[OF assms(1) f le, of label Undefined] assms(3) by simp
  have "\<exists>rest. snd (withRetriesFrom (mockOperation url outcomes) label attempts (int (0 + k) + 1)
      (Error (errs k)) ?tr1) = ?tr1 @ [Goto url] @ rest"
  proof (cases "outcomes (Suc k)")
    case (Inr v)
    then show ?thesis
      using c by (subst withRetriesFrom_step[OF le2]) (simp add: mockOperation_def)
  next
    case (Inl e)
    then have t: "mockOperation url outcomes ?tr1 = (Throw (Error e), ?tr1 @ [Goto url])"
      using c by (simp add: mockOperation_def)
    from mock_retry_extends[of url outcomes label attempts "int (0 + k) + 1 + 1" "Error e"
        "(?tr1 @ [Goto url]) @ [Log (RetryingAfterFailure label (int (0 + k) + 1) (Error e)),
           Sleep (2000 * (int (0 + k) + 1))]"]
    obtain rest where "snd (withRetriesFrom (mockOperation url outcomes) label attempts
        (int (0 + k) + 1 + 1) (Error e)
        ((?tr1 @ [Goto url]) @ [Log (RetryingAfterFailure label (int (0 + k) + 1) (Error e)),
           Sleep (2000 * (int (0 + k) + 1))])) =
        ((?tr1 @ [Goto url]) @ [Log (RetryingAfterFailure label (int (0 + k) + 1) (Error e)),
           Sleep (2000 * (int (0 + k) + 1))]) @ rest"
      by blast
    then show ?thesis
      by (subst withRetriesFrom_step[OF le2]) (simp add: t)
  qed
  then obtain rest where "snd (withRetries (mockOperation url outcomes) label attempts tr) =
      ?tr1 @ [Goto url] @ rest"
    using w by auto
  then have "snd (withRetries (mockOperation url outcomes) label attempts tr) =
      tr @ failedAttempts url label errs 0 (k - 1)
        @ [Goto url, Log (RetryingAfterFailure label (int k) (Error (errs k))),
           Sleep (2000 * int k), Goto url] @ rest"
    by (simp add: k failedAttempts_Suc_back failedAttempt_def)
  then show "\<exists>rest. snd (withRetries (mockOperation url outcomes) label attempts tr) =
            tr @ failedAttempts url label errs 0 (k - 1)
              @ [Goto url, Log (RetryingAfterFailure label (int k) (Error (errs k))),
                 Sleep (2000 * int k), Goto url] @ rest"
    by blast
next
  show "\<forall>cfg cfg'. maxRetries cfg = maxRetries cfg' \<longrightarrow>
            fetchActivities cfg world w = fetchActivities cfg' world w
            \<and> fetchHoldingsPnl cfg world w = fetchHoldingsPnl cfg' world w"
    by (simp add: fetchActivities_def fetchHoldingsPnl_def)
qed

text \<open>Three attempts that fail: the delay after the second one.\<close>

theorem backoff_between_attempts_witness:
  "(\<exists>rest. snd (withRetries (mockOperation (ascii ''u'') (\<lambda>j. Inl ''timeout'' :: string + jsstring))
        (ascii ''solscan-w'') 3 []) =
      [] @ failedAttempts (ascii ''u'') (ascii ''solscan-w'') (\<lambda>j. ''timeout'') 0 (2 - 1)
        @ [Goto (ascii ''u''), Log (RetryingAfterFailure (ascii ''solscan-w'') (int 2) (Error ''timeout'')),
           Sleep (2000 * int 2), Goto (ascii ''u'')] @ rest)
   \<and> fetchActivities \<lparr>startRow = 2, rateLimitMs = 500, maxRetries = 3, timeoutMs = 45000\<rparr>
        quietWorld (ascii ''w'')
     = fetchActivities \<lparr>startRow = 5, rateLimitMs = 9000, maxRetries = 3, timeoutMs = 100\<rparr>
        quietWorld (ascii ''w'')"
proof -
  have fresh: "count_list [] (Goto (ascii ''u'')) = 0" by simp
  have f: "\<forall>j. 0 < j \<and> j \<le> (2::nat) \<longrightarrow>
      (Inl ''timeout'' :: string + jsstring) = Inl ''timeout''" by simp
  have k: "0 < (2::nat)" by simp
  have a: "int 2 < 3" by simp
  note t = backoff_between_attempts[OF fresh f k a, of "ascii ''solscan-w''" quietWorld "ascii ''w''"]
  have m: "maxRetries \<lparr>startRow = 2, rateLimitMs = 500, maxRetries = 3, timeoutMs = 45000\<rparr>
      = maxRetries \<lparr>startRow = 5, rateLimitMs = 9000, maxRetries = 3, timeoutMs = 100\<rparr>"
    by simp
  from t[THEN conjunct1] t[THEN conjunct2, rule_format, OF m, THEN conjunct1]
  show ?thesis by (intro conjI)
qed

text \<open>
  Claim C4 as stated makes the base a configurable field. Two configurations that agree
  on \<open>maxRetries\<close> only give the same delays, 2000 and 4000 milliseconds.
\<close>

theorem backoff_base_not_configurable_counterexample:
  "filter is_sleep (snd (fetchActivities
        \<lparr>startRow = 2, rateLimitMs = 500, maxRetries = 2, timeoutMs = 45000\<rparr>
        offlineWorld (ascii ''w'') [])) = [Sleep 2000, Sleep 4000]
   \<and> filter is_sleep (snd (fetchActivities
        \<lparr>startRow = 5, rateLimitMs = 9000, maxRetries = 2, timeoutMs = 100\<rparr>
        offlineWorld (ascii ''w'') [])) = [Sleep 2000, Sleep 4000]"
  by code_simp

text \<open>
  Claim C10. For every operation that fails on all \<open>maxAttempts\<close> attempts, the wrapper
  sleeps \<open>2000 * k\<close> after every failed attempt \<open>k\<close>, the last one included: the trace has
  \<open>maxAttempts\<close> sleeps, and the sleep of \<open>2000 * maxAttempts\<close> is its last event before the
  error is thrown.
\<close>

theorem backoff_after_last_attempt:
  assumes "count_list tr (Goto url) = 0"
    and "\<forall>j. 0 < j \<and> j \<le> n \<longrightarrow> outcomes j = Inl (errs j)"
    and "0 < n" and "attempts = int n"
  shows "withRetries (mockOperation url outcomes) label attempts tr =
           (Throw (Error (errs n)), tr @ failedAttempts url label errs 0 n)
       \<and> filter is_sleep (failedAttempts url label errs 0 n) =
           map (\<lambda>k. Sleep (2000 * int k)) [1 ..< Suc n]
       \<and> length (filter is_sleep (failedAttempts url label errs 0 n)) = n
       \<and> failedAttempts url label errs 0 n =
           failedAttempts url label errs 0 (n - 1)
             @ [Goto url, Log (RetryingAfterFailure label attempts (Error (errs n))),
                Sleep (2000 * attempts)]"
proof (intro conjI)
  show "withRetries (mockOperation url outcomes) label attempts tr =
           (Throw (Error (errs n)), tr @ failedAttempts url label errs 0 n)"
    using retry_exhausted[OF assms(1,2,4), of label] assms(3) by simp
  show s: "filter is_sleep (failedAttempts url label errs 0 n) =
           map (\<lambda>k. Sleep (2000 * int k)) [1 ..< Suc n]"
    using sleeps_failedAttempts[of url label errs 0 n] by simp
  show "length (filter is_sleep (failedAttempts url label errs 0 n)) = n"
    by (simp only: s) simp
  obtain m where n: "n = Suc m" using assms(3) by (cases n) auto
  show "failedAttempts url label errs 0 n =
           failedAttempts url label errs 0 (n - 1)
             @ [Goto url, Log (RetryingAfterFailure label attempts (Error (errs n))),
                Sleep (2000 * attempts)]"
    by (simp add: n assms(4) failedAttempts_Suc_back failedAttempt_def)
qed

text \<open>Three attempts that fail, with the whole trace.\<close>

theorem backoff_after_last_attempt_witness:
  "withRetries (mockOperation (ascii ''u'') (\<lambda>j. Inl ''timeout'' :: string + jsstring))
      (ascii ''solscan-w'') 3 [] =
     (Throw (Error ''timeout''),
      [Goto (ascii ''u''), Log (RetryingAfterFailure (ascii ''solscan-w'') 1 (Error ''timeout'')), Sleep 2000,
       Goto (ascii ''u''), Log (RetryingAfterFailure (ascii ''solscan-w'') 2 (Error ''timeout'')), Sleep 4000,
       Goto (ascii ''u''), Log (RetryingAfterFailure (ascii ''solscan-w'') 3 (Error ''timeout'')), Sleep 6000])"
proof -
  have fresh: "count_list [] (Goto (ascii ''u'')) = 0" by simp
  have f: "\<forall>j. 0 < j \<and> j \<le> (3::nat) \<longrightarrow>
      (Inl ''timeout'' :: string + jsstring) = Inl ''timeout''" by simp
  have k: "0 < (3::nat)" by simp
  have a: "(3::int) = int 3" by simp
  have e: "failedAttempts (ascii ''u'') (ascii ''solscan-w'') (\<lambda>j. ''timeout'') 0 3 =
      [Goto (ascii ''u''), Log (RetryingAfterFailure (ascii ''solscan-w'') 1 (Error ''timeout'')), Sleep 2000,
       Goto (ascii ''u''), Log (RetryingAfterFailure (ascii ''solscan-w'') 2 (Error ''timeout'')), Sleep 4000,
       Goto (ascii ''u''), Log (RetryingAfterFailure (ascii ''solscan-w'') 3 (Error ''timeout'')), Sleep 6000]"
    by (simp add: failedAttempts_def failedAttempt_def upt_conv_Cons del: upt_Suc)
  from backoff_after_last_attempt[OF fresh f k a, of "ascii ''solscan-w''", THEN conjunct1]
  show ?thesis by (simp add: e)
qed

section \<open>The wallet loop\<close>

lemma processWallet_skip_missing:
  "\<not> truthy (wallet e) \<Longrightarrow>
   processWallet cfg world i e tr = (Return (), tr @ [Log (SkippingEmptyWalletRow (rowIndex e))])"
  by (simp add: processWallet_def log_def emit_def)

lemma processWallet_skip_populated:
  "truthy (wallet e) \<Longrightarrow> truthy (activities e) \<Longrightarrow> truthy (holdingsPnl e) \<Longrightarrow>
   processWallet cfg world i e tr =
     (Return (), tr @ [Log (SkippingAlreadyProcessedRow (rowIndex e) (the (wallet e)))])"
  by (simp add: processWallet_def log_def emit_def)

lemma processWallets_Return:
  "processWallet cfg world i e tr = (Return (), tr1) \<Longrightarrow>
   processWallets cfg world i (e # es) tr = processWallets cfg world (Suc i) es tr1"
  by (simp add: await_def)

lemma processWallets_Throw:
  "processWallet cfg world i e tr = (Throw err, tr1) \<Longrightarrow>
   processWallets cfg world i (e # es) tr = (Throw err, tr1)"
  by (simp add: await_def)

lemma processWallets_append:
  "processWallets cfg world i before tr0 = (Return (), tr) \<Longrightarrow>
   processWallets cfg world i (before @ rest) tr0 =
     processWallets cfg world (i + length before) rest tr"
proof (induction before arbitrary: i tr0)
  case Nil
  then show ?case by simp
next
  case (Cons e es)
  show ?case
  proof (cases "processWallet cfg world i e tr0")
    case (Pair r tr1)
    show ?thesis
    proof (cases r)
      case (Return u)
      with Pair Cons.prems have "processWallets cfg world (Suc i) es tr1 = (Return (), tr)"
        by (simp add: await_def)
      from Cons.IH[OF this] Pair Return show ?thesis
        by (simp add: await_def)
    next
      case (Throw err)
      with Pair Cons.prems show ?thesis by (simp add: await_def)
    next
      case Pending
      with Pair Cons.prems show ?thesis by (simp add: await_def)
    qed
  qed
qed

lemma processWallet_activities_throw:
  assumes "truthy (wallet e)" "\<not> (truthy (activities e) \<and> truthy (holdingsPnl e))"
    and "fetchActivities cfg world (the (wallet e)) (processingTrace i e tr) = (Throw err, tr2)"
  shows "processWallet cfg world i e tr = (Throw err, tr2)"
  using assms
  by (auto simp: processWallet_def await_def log_def emit_def processingTrace_def)

lemma processWallet_pnl_throw:
  assumes "truthy (wallet e)" "\<not> (truthy (activities e) \<and> truthy (holdingsPnl e))"
    and "fetchActivities cfg world (the (wallet e)) (processingTrace i e tr) = (Return a, tr2)"
    and "fetchHoldingsPnl cfg world (the (wallet e)) (tr2 @ [Sleep (rateLimitMs cfg)]) = (Throw err, tr3)"
  shows "processWallet cfg world i e tr = (Throw err, tr3)"
  using assms
  by (auto simp: processWallet_def await_def log_def emit_def sleep_def processingTrace_def)

lemma processWallet_write:
  assumes "truthy (wallet e)" "\<not> (truthy (activities e) \<and> truthy (holdingsPnl e))"
    and "fetchActivities cfg world (the (wallet e)) (processingTrace i e tr) = (Return a, tr2)"
    and "fetchHoldingsPnl cfg world (the (wallet e)) (tr2 @ [Sleep (rateLimitMs cfg)]) = (Return p, tr3)"
  shows "processWallet cfg world i e tr =
    (case write_error world tr3 of
       None \<Rightarrow> (Return (), tr3 @ [WriteSheet (rowIndex e) a p, Log (UpdatedSheetRow (rowIndex e) a p),
                   Sleep (rateLimitMs cfg)])
     | Some message \<Rightarrow> (Throw (Error message), tr3 @ [WriteSheet (rowIndex e) a p]))"
  using assms
  by (auto simp: processWallet_def await_def log_def emit_def sleep_def processingTrace_def
      writeSheetValues_def split: option.splits)

lemma writes_append: "writes (xs @ ys) = writes xs @ writes ys"
  by (simp add: writes_def)

lemma writes_logs: "writes (map Log msgs) = []"
  by (induction msgs) (simp_all add: writes_def)

lemma writes_simps:
  "writes [] = []"
  "writes (Goto u # tr) = writes tr"
  "writes (DetectVerification # tr) = writes tr"
  "writes (Prompt # tr) = writes tr"
  "writes (WaitForTimeout n # tr) = writes tr"
  "writes (TextContent # tr) = writes tr"
  "writes (Sleep ms # tr) = writes tr"
  "writes (Screenshot w l # tr) = writes tr"
  "writes (Log msg # tr) = writes tr"
  by (simp_all add: writes_def)

lemma withRetriesFrom_writes:
  assumes task: "\<And>tr r tr'. task tr = (r, tr') \<Longrightarrow> writes tr' = writes tr"
  shows "withRetriesFrom task label attempts attempt lastErr tr = (r, tr') \<Longrightarrow>
         writes tr' = writes tr"
  using task
proof (induction task label attempts attempt lastErr tr rule: withRetriesFrom.induct)
  case (1 task label attempts attempt lastError tr)
  show ?case
  proof (cases "attempt \<le> attempts")
    case False
    with "1.prems" show ?thesis by (simp add: withRetriesFrom_done)
  next
    case True
    obtain r1 tr1 where t: "task tr = (r1, tr1)" by (cases "task tr")
    have w1: "writes tr1 = writes tr" using "1.prems"(2)[OF t] .
    show ?thesis
    proof (cases r1)
      case (Return v)
      with "1.prems"(1) t w1 show ?thesis
        by (simp add: withRetriesFrom_step[OF True])
    next
      case Pending
      with "1.prems"(1) t w1 show ?thesis
        by (simp add: withRetriesFrom_step[OF True])
    next
      case (Throw e)
      show ?thesis
      proof (cases e)
        case Undefined
        with "1.prems"(1) t Throw w1 show ?thesis
          by (simp add: withRetriesFrom_step[OF True])
      next
        case (Error message)
        with "1.prems"(1) t Throw have "withRetriesFrom task label attempts (attempt + 1) (Error message)
            (tr1 @ [Log (RetryingAfterFailure label attempt (Error message)), Sleep (2000 * attempt)])
            = (r, tr')"
          by (simp add: withRetriesFrom_step[OF True])
        from "1.IH"[OF True t[symmetric] Throw Error this "1.prems"(2)]
        have "writes tr' = writes (tr1 @ [Log (RetryingAfterFailure label attempt (Error message)),
            Sleep (2000 * attempt)])"
          by simp
        with w1 show ?thesis
          by (simp add: writes_append writes_simps)
      qed
    qed
  qed
qed

lemma waitIfVerification_writes:
  "waitIfVerification world lbl tr = (r, tr') \<Longrightarrow> writes tr' = writes tr"
  by (auto simp: waitIfVerification_def await_def detectVerification_def promptToContinue_def
      Let_def writes_append writes_simps split: if_splits)

lemma page_goto_writes: "page_goto world url tr = (r, tr') \<Longrightarrow> writes tr' = writes tr"
  by (auto simp: page_goto_def writes_append writes_simps split: option.splits)

lemma extractSolscanActivities_writes:
  "extractSolscanActivities world tr = (r, tr') \<Longrightarrow> writes tr' = writes tr"
  by (auto simp: extractSolscanActivities_def Let_def writes_append writes_simps writes_logs
      split: sum.splits)

lemma extractJupiterHoldingsPnl_writes:
  "extractJupiterHoldingsPnl world tr = (r, tr') \<Longrightarrow> writes tr' = writes tr"
  by (auto simp: extractJupiterHoldingsPnl_def Let_def writes_append writes_simps
      split: sum.splits)

lemma await_writes:
  assumes m: "\<And>tr r tr'. m tr = (r, tr') \<Longrightarrow> writes tr' = writes tr"
    and f: "\<And>x tr r tr'. f x tr = (r, tr') \<Longrightarrow> writes tr' = writes tr"
    and a: "await m f tr = (r, tr')"
  shows "writes tr' = writes tr"
proof (cases "m tr")
  case (Pair r1 tr1)
  from m[OF Pair] have w1: "writes tr1 = writes tr" .
  show ?thesis
  proof (cases r1)
    case (Return x)
    with a Pair have "f x tr1 = (r, tr')" by (simp add: await_def)
    from f[OF this] w1 show ?thesis by simp
  next
    case (Throw e)
    with a Pair w1 show ?thesis by (simp add: await_def)
  next
    case Pending
    with a Pair w1 show ?thesis by (simp add: await_def)
  qed
qed

lemma solscanTask_writes: "solscanTask world w tr = (r, tr') \<Longrightarrow> writes tr' = writes tr"
  unfolding solscanTask_def
  by (erule await_writes[rotated 2], erule page_goto_writes, erule await_writes[rotated 2],
      erule waitIfVerification_writes, erule extractSolscanActivities_writes)

lemma jupiterTask_writes: "jupiterTask world w tr = (r, tr') \<Longrightarrow> writes tr' = writes tr"
  unfolding jupiterTask_def
  by (erule await_writes[rotated 2], erule page_goto_writes, erule await_writes[rotated 2],
      erule waitIfVerification_writes, erule extractJupiterHoldingsPnl_writes)

lemma catchWithScreenshot_writes:
  assumes p: "\<And>tr r tr'. p tr = (r, tr') \<Longrightarrow> writes tr' = writes tr"
    and c: "catchWithScreenshot world w lab p tr = (r, tr')"
  shows "writes tr' = writes tr"
proof (cases "p tr")
  case (Pair r1 tr1)
  from p[OF Pair] have w1: "writes tr1 = writes tr" .
  from c Pair w1 show ?thesis
    by (cases r1) (auto simp: catchWithScreenshot_def captureFailureScreenshot_def writes_append
        writes_simps split: option.splits)
qed

lemma fetchActivities_writes:
  "fetchActivities cfg world w tr = (r, tr') \<Longrightarrow> writes tr' = writes tr"
  unfolding fetchActivities_def withRetries_def
  by (erule catchWithScreenshot_writes[rotated], erule withRetriesFrom_writes[rotated],
      erule solscanTask_writes)

lemma fetchHoldingsPnl_writes:
  "fetchHoldingsPnl cfg world w tr = (r, tr') \<Longrightarrow> writes tr' = writes tr"
  unfolding fetchHoldingsPnl_def withRetries_def
  by (erule catchWithScreenshot_writes[rotated], erule withRetriesFrom_writes[rotated],
      erule solscanTask_writes jupiterTask_writes)

lemma detect_then_prompt:
  assumes "fst (detectVerification world tr1) = Return True"
    and "operator_resumes world (tr1 @ [DetectVerification, Log (VerificationDetected lbl), Prompt])"
  shows "waitIfVerification world lbl tr1 =
    (Return (), tr1 @ [DetectVerification, Log (VerificationDetected lbl), Prompt])"
proof -
  from assms(1) have "detectVerification world tr1 = (Return True, tr1 @ [DetectVerification])"
    by (simp add: detectVerification_def Let_def split: if_splits)
  with assms(2) show ?thesis
    by (simp add: waitIfVerification_def await_def promptToContinue_def Let_def)
qed

lemma extractSolscanActivities_trace:
  "\<exists>logs. snd (extractSolscanActivities world tr) =
     tr @ [WaitForTimeout 3000, TextContent] @ map Log logs"
  by (auto simp: extractSolscanActivities_def Let_def split: sum.splits)

lemma extractJupiterHoldingsPnl_trace:
  "snd (extractJupiterHoldingsPnl world tr) = tr @ [WaitForTimeout 3000, TextContent]"
  by (auto simp: extractJupiterHoldingsPnl_def Let_def split: sum.splits)

lemma withRetriesFrom_throws_defined:
  "withRetriesFrom task label attempts attempt lastErr tr = (Throw e, tr') \<Longrightarrow>
   attempt \<le> attempts \<or> lastErr \<noteq> Undefined \<Longrightarrow> e \<noteq> Undefined"
proof (induction task label attempts attempt lastErr tr rule: withRetriesFrom.induct)
  case (1 task label attempts attempt lastError tr)
  show ?case
  proof (cases "attempt \<le> attempts")
    case False
    with "1.prems" show ?thesis by (simp add: withRetriesFrom_done)
  next
    case True
    obtain r1 tr1 where t: "task tr = (r1, tr1)" by (cases "task tr")
    show ?thesis
    proof (cases r1)
      case (Return v)
      with "1.prems"(1) t show ?thesis
        by (simp add: withRetriesFrom_step[OF True])
    next
      case Pending
      with "1.prems"(1) t show ?thesis
        by (simp add: withRetriesFrom_step[OF True])
    next
      case (Throw e1)
      show ?thesis
      proof (cases e1)
        case Undefined
        with "1.prems"(1) t Throw show ?thesis
          by (auto simp: withRetriesFrom_step[OF True] messageOfUndefined_def)
      next
        case (Error message)
        with "1.prems"(1) t Throw have "withRetriesFrom task label attempts (attempt + 1) (Error message)
            (tr1 @ [Log (RetryingAfterFailure label attempt (Error message)), Sleep (2000 * attempt)])
            = (Throw e, tr')"
          by (simp add: withRetriesFrom_step[OF True])
        from "1.IH"[OF True t[symmetric] Throw Error this] show ?thesis
          by simp
      qed
    qed
  qed
qed

lemma catchWithScreenshot_throws_defined:
  assumes p: "\<And>e tr1. p tr = (Throw e, tr1) \<Longrightarrow> e \<noteq> Undefined"
    and c: "catchWithScreenshot world w lab p tr = (Throw e, tr')"
  shows "e \<noteq> Undefined"
proof (cases "p tr")
  case (Pair r1 tr1)
  show ?thesis
  proof (cases r1)
    case (Throw e1)
    with Pair p have "e1 \<noteq> Undefined" by blast
    with c Pair Throw show ?thesis
      by (auto simp: catchWithScreenshot_def captureFailureScreenshot_def split: option.splits)
  next
    case (Return v)
    with c Pair show ?thesis by (simp add: catchWithScreenshot_def)
  next
    case Pending
    with c Pair show ?thesis by (simp add: catchWithScreenshot_def)
  qed
qed

lemma fetchActivities_throws_defined:
  assumes "1 \<le> maxRetries cfg" and "fetchActivities cfg world w tr = (Throw e, tr')"
  shows "e \<noteq> Undefined"
  using assms(2) unfolding fetchActivities_def withRetries_def
  by (rule catchWithScreenshot_throws_defined[rotated])
    (erule withRetriesFrom_throws_defined, simp add: assms(1))

lemma fetchHoldingsPnl_throws_defined:
  assumes "1 \<le> maxRetries cfg" and "fetchHoldingsPnl cfg world w tr = (Throw e, tr')"
  shows "e \<noteq> Undefined"
  using assms(2) unfolding fetchHoldingsPnl_def withRetries_def
  by (rule catchWithScreenshot_throws_defined[rotated])
    (erule withRetriesFrom_throws_defined, simp add: assms(1))

section \<open>Claims about the wallet loop\<close>

text \<open>
  Claim C5. A wallet record whose two result fields are both non-empty is skipped: its
  iteration writes one log line and nothing else (no navigation, no extraction, no sheet
  write), and the loop goes on with the next record. The same holds for a record whose
  wallet address is missing.
\<close>

theorem skips_populated_and_missing:
  "(truthy (activities e) \<and> truthy (holdingsPnl e) \<longrightarrow>
      processWallet cfg world i e tr =
        (Return (), tr @ [Log (if truthy (wallet e)
                               then SkippingAlreadyProcessedRow (rowIndex e) (the (wallet e))
                               else SkippingEmptyWalletRow (rowIndex e))])
      \<and> processWallets cfg world i (e # rest) tr =
          processWallets cfg world (Suc i) rest
            (tr @ [Log (if truthy (wallet e)
                        then SkippingAlreadyProcessedRow (rowIndex e) (the (wallet e))
                        else SkippingEmptyWalletRow (rowIndex e))]))
   \<and> (\<not> truthy (wallet e) \<longrightarrow>
      processWallet cfg world i e tr = (Return (), tr @ [Log (SkippingEmptyWalletRow (rowIndex e))])
      \<and> processWallets cfg world i (e # rest) tr =
          processWallets cfg world (Suc i) rest (tr @ [Log (SkippingEmptyWalletRow (rowIndex e))]))"
proof (intro conjI impI)
  assume h: "truthy (activities e) \<and> truthy (holdingsPnl e)"
  show p: "processWallet cfg world i e tr =
        (Return (), tr @ [Log (if truthy (wallet e)
                               then SkippingAlreadyProcessedRow (rowIndex e) (the (wallet e))
                               else SkippingEmptyWalletRow (rowIndex e))])"
    using h processWallet_skip_missing[of e cfg world i tr]
      processWallet_skip_populated[of e cfg world i tr]
    by (cases "truthy (wallet e)") simp_all
  show "processWallets cfg world i (e # rest) tr =
          processWallets cfg world (Suc i) rest
            (tr @ [Log (if truthy (wallet e)
                        then SkippingAlreadyProcessedRow (rowIndex e) (the (wallet e))
                        else SkippingEmptyWalletRow (rowIndex e))])"
    using p by (rule processWallets_Return)
next
  assume h: "\<not> truthy (wallet e)"
  show p: "processWallet cfg world i e tr =
      (Return (), tr @ [Log (SkippingEmptyWalletRow (rowIndex e))])"
    using h by (rule processWallet_skip_missing)
  show "processWallets cfg world i (e # rest) tr =
          processWallets cfg world (Suc i) rest (tr @ [Log (SkippingEmptyWalletRow (rowIndex e))])"
    using p by (rule processWallets_Return)
qed

text \<open>A populated record and a record without an address.\<close>

theorem skips_populated_and_missing_witness:
  "truthy (activities doneEntry) \<and> truthy (holdingsPnl doneEntry)
   \<and> processWallet testConfig happyWorld 0 doneEntry [] =
       (Return (), [Log (SkippingAlreadyProcessedRow 2 (ascii ''v''))])
   \<and> \<not> truthy (wallet emptyEntry)
   \<and> processWallet testConfig happyWorld 1 emptyEntry [] =
       (Return (), [Log (SkippingEmptyWalletRow 3)])"
proof -
  have a: "truthy (activities doneEntry) \<and> truthy (holdingsPnl doneEntry)"
    by (simp add: doneEntry_def truthy_def ascii_def)
  have b: "\<not> truthy (wallet emptyEntry)"
    by (simp add: emptyEntry_def truthy_def)
  from skips_populated_and_missing[of doneEntry testConfig happyWorld 0 "[]", THEN conjunct1,
      rule_format, OF a, THEN conjunct1]
  have c: "processWallet testConfig happyWorld 0 doneEntry [] =
       (Return (), [Log (SkippingAlreadyProcessedRow 2 (ascii ''v''))])"
    by (simp add: doneEntry_def truthy_def ascii_def)
  from skips_populated_and_missing[of emptyEntry testConfig happyWorld 1 "[]", THEN conjunct2,
      rule_format, OF b, THEN conjunct1]
  have d: "processWallet testConfig happyWorld 1 emptyEntry [] =
       (Return (), [Log (SkippingEmptyWalletRow 3)])"
    by (simp add: emptyEntry_def)
  from a c b d show ?thesis by (intro conjI) simp_all
qed

text \<open>
  With \<open>maxRetries\<close> at least 1: when one of the two fetches of a wallet record
  ends in a throw (its retries are exhausted), the iteration throws that error and has
  written nothing to the sheet,
  the loop ends with the trace of that iteration (no later record is processed), and
  \<open>main\<close> logs \<open>Fatal error\<close> and exits with code 1.
\<close>

lemma exhausted_retries_end_the_run:
  assumes "1 \<le> maxRetries cfg"
    and "truthy (wallet e)" and "\<not> (truthy (activities e) \<and> truthy (holdingsPnl e))"
    and "fetchActivities cfg world (the (wallet e)) (processingTrace i e tr) = (Throw err, tr')
         \<or> (\<exists>a tr2. fetchActivities cfg world (the (wallet e)) (processingTrace i e tr) = (Return a, tr2)
              \<and> fetchHoldingsPnl cfg world (the (wallet e)) (tr2 @ [Sleep (rateLimitMs cfg)])
                  = (Throw err, tr'))"
  shows "processWallet cfg world i e tr = (Throw err, tr')
       \<and> writes tr' = writes tr
       \<and> processWallets cfg world i (e # rest) tr = (Throw err, tr')
       \<and> (i = length before \<and> processWallets cfg world 0 before tr0 = (Return (), tr) \<longrightarrow>
            main cfg world (before @ e # rest) tr0 =
              (Return (), tr' @ [Log (FatalError err), Exit 1]))"
proof -
  have p: "processWallet cfg world i e tr = (Throw err, tr')"
    using assms(4) processWallet_activities_throw[OF assms(2,3)]
      processWallet_pnl_throw[OF assms(2,3)]
    by blast
  have d: "err \<noteq> Undefined"
    using assms(4) fetchActivities_throws_defined[OF assms(1)]
      fetchHoldingsPnl_throws_defined[OF assms(1)]
    by blast
  have w: "writes tr' = writes tr"
    using assms(4)
  proof
    assume "fetchActivities cfg world (the (wallet e)) (processingTrace i e tr) = (Throw err, tr')"
    from fetchActivities_writes[OF this] show ?thesis
      by (simp add: processingTrace_def writes_append writes_simps)
  next
    assume "\<exists>a tr2. fetchActivities cfg world (the (wallet e)) (processingTrace i e tr) = (Return a, tr2)
              \<and> fetchHoldingsPnl cfg world (the (wallet e)) (tr2 @ [Sleep (rateLimitMs cfg)])
                  = (Throw err, tr')"
    then obtain a tr2 where
      a: "fetchActivities cfg world (the (wallet e)) (processingTrace i e tr) = (Return a, tr2)"
      and b: "fetchHoldingsPnl cfg world (the (wallet e)) (tr2 @ [Sleep (rateLimitMs cfg)])
          = (Throw err, tr')"
      by blast
    from fetchActivities_writes[OF a] fetchHoldingsPnl_writes[OF b] show ?thesis
      by (simp add: processingTrace_def writes_append writes_simps)
  qed
  have l: "processWallets cfg world i (e # rest) tr = (Throw err, tr')"
    using p by (rule processWallets_Throw)
  have m: "main cfg world (before @ e # rest) tr0 = (Return (), tr' @ [Log (FatalError err), Exit 1])"
    if "i = length before" "processWallets cfg world 0 before tr0 = (Return (), tr)"
  proof -
    from processWallets_append[OF that(2), of "e # rest"] l that(1)
    have "processWallets cfg world 0 (before @ e # rest) tr0 = (Throw err, tr')" by simp
    with d show ?thesis
      by (cases err) (simp_all add: main_def run_def await_def)
  qed
  from p w l m show ?thesis by blast
qed

text \<open>Three records and no network: the second record ends the run.\<close>

lemma exhausted_retries_end_the_run_example:
  "1 \<le> maxRetries testConfig \<and> truthy (wallet newEntry) \<and> \<not> (truthy (activities newEntry) \<and> truthy (holdingsPnl newEntry))
   \<and> main testConfig offlineWorld [doneEntry, newEntry, emptyEntry] [] =
     (Return (),
      [Log (SkippingAlreadyProcessedRow 2 (ascii ''v'')),
       Log (ProcessingWallet 2 (ascii ''w'') 2),
       Goto (solscanUrl (ascii ''w'')),
       Log (RetryingAfterFailure (ascii ''solscan-w'') 1 (Error ''net::ERR_INTERNET_DISCONNECTED'')),
       Sleep 2000,
       Goto (solscanUrl (ascii ''w'')),
       Log (RetryingAfterFailure (ascii ''solscan-w'') 2 (Error ''net::ERR_INTERNET_DISCONNECTED'')),
       Sleep 4000,
       Screenshot (ascii ''w'') (ascii ''solscan''),
       Log SavedFailureScreenshot,
       Log (FatalError (Error ''net::ERR_INTERNET_DISCONNECTED'')),
       Exit 1])"
proof -
  have h0: "1 \<le> maxRetries testConfig" by (simp add: testConfig_def)
  have h1: "truthy (wallet newEntry)" by code_simp
  have h2: "\<not> (truthy (activities newEntry) \<and> truthy (holdingsPnl newEntry))" by code_simp
  have h3: "fetchActivities testConfig offlineWorld (the (wallet newEntry))
      (processingTrace 1 newEntry [Log (SkippingAlreadyProcessedRow 2 (ascii ''v''))]) =
      (Throw (Error ''net::ERR_INTERNET_DISCONNECTED''),
       [Log (SkippingAlreadyProcessedRow 2 (ascii ''v'')),
        Log (ProcessingWallet 2 (ascii ''w'') 2),
        Goto (solscanUrl (ascii ''w'')),
        Log (RetryingAfterFailure (ascii ''solscan-w'') 1 (Error ''net::ERR_INTERNET_DISCONNECTED'')),
        Sleep 2000,
        Goto (solscanUrl (ascii ''w'')),
        Log (RetryingAfterFailure (ascii ''solscan-w'') 2 (Error ''net::ERR_INTERNET_DISCONNECTED'')),
        Sleep 4000,
        Screenshot (ascii ''w'') (ascii ''solscan''),
        Log SavedFailureScreenshot])"
    by code_simp
  have h4: "1 = length [doneEntry] \<and> processWallets testConfig offlineWorld 0 [doneEntry] [] =
      (Return (), [Log (SkippingAlreadyProcessedRow 2 (ascii ''v''))])"
    by code_simp
  from exhausted_retries_end_the_run[OF h0 h1 h2 disjI1, OF h3, of "[emptyEntry]" "[doneEntry]" "[]",
      THEN conjunct2, THEN conjunct2, THEN conjunct2, rule_format, OF h4]
  have "main testConfig offlineWorld [doneEntry, newEntry, emptyEntry] [] =
     (Return (),
      [Log (SkippingAlreadyProcessedRow 2 (ascii ''v'')),
       Log (ProcessingWallet 2 (ascii ''w'') 2),
       Goto (solscanUrl (ascii ''w'')),
       Log (RetryingAfterFailure (ascii ''solscan-w'') 1 (Error ''net::ERR_INTERNET_DISCONNECTED'')),
       Sleep 2000,
       Goto (solscanUrl (ascii ''w'')),
       Log (RetryingAfterFailure (ascii ''solscan-w'') 2 (Error ''net::ERR_INTERNET_DISCONNECTED'')),
       Sleep 4000,
       Screenshot (ascii ''w'') (ascii ''solscan''),
       Log SavedFailureScreenshot,
       Log (FatalError (Error ''net::ERR_INTERNET_DISCONNECTED'')),
       Exit 1])"
    by simp
  with h0 h1 h2 show ?thesis by (intro conjI)
qed

text \<open>
  Claim C6 at \<open>maxRetries = 0\<close> (\<open>MAX_RETRIES=0\<close>), with the same three records and no
  network: the loop of \<open>withRetries\<close> makes no attempt and \<open>throw lastError\<close> throws
  \<open>undefined\<close>; the screenshot is captured, no sheet write occurs and no later record is
  processed, but the handler of \<open>run\<close> reads \<open>error.message\<close> of \<open>undefined\<close> and throws a
  \<open>TypeError\<close> itself: no \<open>Fatal error\<close> line is logged and \<open>process.exit(1)\<close> is not
  reached, where the claim says the process exits nonzero after logging the error.
\<close>

theorem no_attempt_skips_fatal_error_exit:
  "main (testConfig\<lparr>maxRetries := 0\<rparr>) offlineWorld [doneEntry, newEntry, emptyEntry] [] =
     (Throw messageOfUndefined,
      [Log (SkippingAlreadyProcessedRow 2 (ascii ''v'')),
       Log (ProcessingWallet 2 (ascii ''w'') 2),
       Screenshot (ascii ''w'') (ascii ''solscan''),
       Log SavedFailureScreenshot])"
  by code_simp

text \<open>
  Claim C7, as amended. On a page load on which the detector reports a challenge, once
  the operator has resumed, the task goes straight on to the extraction on the page as it
  is: the navigation is not attempted again and the detector is not consulted again.
\<close>

theorem resume_goes_to_extraction:
  "(goto_error world tr (solscanUrl w) = None
      \<and> fst (detectVerification world (tr @ [Goto (solscanUrl w)])) = Return True
      \<and> operator_resumes world
          (tr @ [Goto (solscanUrl w), DetectVerification, Log (VerificationDetected ''Solscan''),
                 Prompt]) \<longrightarrow>
      solscanTask world w tr =
        extractSolscanActivities world
          (tr @ [Goto (solscanUrl w), DetectVerification, Log (VerificationDetected ''Solscan''),
                 Prompt])
      \<and> (\<exists>logs. snd (solscanTask world w tr) =
            tr @ [Goto (solscanUrl w), DetectVerification, Log (VerificationDetected ''Solscan''),
                  Prompt, WaitForTimeout 3000, TextContent] @ map Log logs))
   \<and> (goto_error world tr (jupiterUrl w) = None
      \<and> fst (detectVerification world (tr @ [Goto (jupiterUrl w)])) = Return True
      \<and> operator_resumes world
          (tr @ [Goto (jupiterUrl w), DetectVerification, Log (VerificationDetected ''Jupiter''),
                 Prompt]) \<longrightarrow>
      jupiterTask world w tr =
        extractJupiterHoldingsPnl world
          (tr @ [Goto (jupiterUrl w), DetectVerification, Log (VerificationDetected ''Jupiter''),
                 Prompt])
      \<and> snd (jupiterTask world w tr) =
            tr @ [Goto (jupiterUrl w), DetectVerification, Log (VerificationDetected ''Jupiter''),
                  Prompt, WaitForTimeout 3000, TextContent])"
proof (intro conjI impI)
  assume h: "goto_error world tr (solscanUrl w) = None
      \<and> fst (detectVerification world (tr @ [Goto (solscanUrl w)])) = Return True
      \<and> operator_resumes world
          (tr @ [Goto (solscanUrl w), DetectVerification, Log (VerificationDetected ''Solscan''),
                 Prompt])"
  then have g: "page_goto world (solscanUrl w) tr = (Return (), tr @ [Goto (solscanUrl w)])"
    by (simp add: page_goto_def)
  from h have "waitIfVerification world ''Solscan'' (tr @ [Goto (solscanUrl w)]) =
      (Return (), (tr @ [Goto (solscanUrl w)])
         @ [DetectVerification, Log (VerificationDetected ''Solscan''), Prompt])"
    by (intro detect_then_prompt) simp_all
  with g show s: "solscanTask world w tr =
        extractSolscanActivities world
          (tr @ [Goto (solscanUrl w), DetectVerification, Log (VerificationDetected ''Solscan''),
                 Prompt])"
    by (simp add: solscanTask_def await_def)
  from extractSolscanActivities_trace[of world
      "tr @ [Goto (solscanUrl w), DetectVerification, Log (VerificationDetected ''Solscan''), Prompt]"]
  show "\<exists>logs. snd (solscanTask world w tr) =
            tr @ [Goto (solscanUrl w), DetectVerification, Log (VerificationDetected ''Solscan''),
                  Prompt, WaitForTimeout 3000, TextContent] @ map Log logs"
    by (simp add: s)
next
  assume h: "goto_error world tr (jupiterUrl w) = None
      \<and> fst (detectVerification world (tr @ [Goto (jupiterUrl w)])) = Return True
      \<and> operator_resumes world
          (tr @ [Goto (jupiterUrl w), DetectVerification, Log (VerificationDetected ''Jupiter''),
                 Prompt])"
  then have g: "page_goto world (jupiterUrl w) tr = (Return (), tr @ [Goto (jupiterUrl w)])"
    by (simp add: page_goto_def)
  from h have "waitIfVerification world ''Jupiter'' (tr @ [Goto (jupiterUrl w)]) =
      (Return (), (tr @ [Goto (jupiterUrl w)])
         @ [DetectVerification, Log (VerificationDetected ''Jupiter''), Prompt])"
    by (intro detect_then_prompt) simp_all
  with g show s: "jupiterTask world w tr =
        extractJupiterHoldingsPnl world
          (tr @ [Goto (jupiterUrl w), DetectVerification, Log (VerificationDetected ''Jupiter''),
                 Prompt])"
    by (simp add: jupiterTask_def await_def)
  show "snd (jupiterTask world w tr) =
            tr @ [Goto (jupiterUrl w), DetectVerification, Log (VerificationDetected ''Jupiter''),
                  Prompt, WaitForTimeout 3000, TextContent]"
    by (simp add: s extractJupiterHoldingsPnl_trace)
qed

text \<open>
  Claim C7 as stated has the navigation attempted again after the operator resumed. On a
  challenge page the trace of the task has one navigation, and the extraction follows the
  prompt.
\<close>

theorem resume_goes_to_extraction_counterexample:
  "solscanTask challengeWorld (ascii ''w'') [] =
     (Return (ascii ''5''),
      [Goto (solscanUrl (ascii ''w'')), DetectVerification,
       Log (VerificationDetected ''Solscan''), Prompt,
       WaitForTimeout 3000, TextContent,
       Log FoundTextContainingActivit, Log (FoundActivityCount (ascii ''5''))])"
  by code_simp

text \<open>The same page, through the theorem.\<close>

theorem resume_goes_to_extraction_witness:
  "goto_error challengeWorld [] (solscanUrl (ascii ''w'')) = None
   \<and> fst (detectVerification challengeWorld ([] @ [Goto (solscanUrl (ascii ''w''))])) = Return True
   \<and> operator_resumes challengeWorld
        ([] @ [Goto (solscanUrl (ascii ''w'')), DetectVerification,
               Log (VerificationDetected ''Solscan''), Prompt])
   \<and> solscanTask challengeWorld (ascii ''w'') [] =
        extractSolscanActivities challengeWorld
          ([] @ [Goto (solscanUrl (ascii ''w'')), DetectVerification,
                 Log (VerificationDetected ''Solscan''), Prompt])"
proof -
  have h: "goto_error challengeWorld [] (solscanUrl (ascii ''w'')) = None
   \<and> fst (detectVerification challengeWorld ([] @ [Goto (solscanUrl (ascii ''w''))])) = Return True
   \<and> operator_resumes challengeWorld
        ([] @ [Goto (solscanUrl (ascii ''w'')), DetectVerification,
               Log (VerificationDetected ''Solscan''), Prompt])"
    by code_simp
  from resume_goes_to_extraction[of challengeWorld "[]" "ascii ''w''", THEN conjunct1, rule_format,
      OF h, THEN conjunct1] h
  show ?thesis by (intro conjI) simp_all
qed

text \<open>
  Claim C8, as amended. In a wallet iteration that is not skipped, the pause of
  \<open>rateLimitMs\<close> is executed at two points: after the first fetch has returned, before the
  second one, and after the sheet write and its log line. Nothing lies between the second
  fetch and the sheet write. When a fetch throws or the write throws, the iteration ends
  there, with no pause.
\<close>

theorem rate_limit_pauses:
  assumes "truthy (wallet e)" and "\<not> (truthy (activities e) \<and> truthy (holdingsPnl e))"
  shows "(fetchActivities cfg world (the (wallet e)) (processingTrace i e tr) = (Return a, tr2)
          \<and> fetchHoldingsPnl cfg world (the (wallet e)) (tr2 @ [Sleep (rateLimitMs cfg)])
              = (Return p, tr3)
          \<and> write_error world tr3 = None \<longrightarrow>
          processWallet cfg world i e tr =
            (Return (), tr3 @ [WriteSheet (rowIndex e) a p, Log (UpdatedSheetRow (rowIndex e) a p),
                               Sleep (rateLimitMs cfg)]))
       \<and> (fetchActivities cfg world (the (wallet e)) (processingTrace i e tr) = (Throw err, tr2) \<longrightarrow>
          processWallet cfg world i e tr = (Throw err, tr2))
       \<and> (fetchActivities cfg world (the (wallet e)) (processingTrace i e tr) = (Return a, tr2)
          \<and> fetchHoldingsPnl cfg world (the (wallet e)) (tr2 @ [Sleep (rateLimitMs cfg)])
              = (Throw err, tr3) \<longrightarrow>
          processWallet cfg world i e tr = (Throw err, tr3))
       \<and> (fetchActivities cfg world (the (wallet e)) (processingTrace i e tr) = (Return a, tr2)
          \<and> fetchHoldingsPnl cfg world (the (wallet e)) (tr2 @ [Sleep (rateLimitMs cfg)])
              = (Return p, tr3)
          \<and> write_error world tr3 = Some message \<longrightarrow>
          processWallet cfg world i e tr =
            (Throw (Error message), tr3 @ [WriteSheet (rowIndex e) a p]))"
  using processWallet_write[OF assms, of cfg world i tr a tr2 p tr3]
    processWallet_activities_throw[OF assms, of cfg world i tr err tr2]
    processWallet_pnl_throw[OF assms, of cfg world i tr a tr2 err tr3]
  by simp

text \<open>A record for which everything succeeds at once.\<close>

theorem rate_limit_pauses_witness:
  "truthy (wallet newEntry) \<and> \<not> (truthy (activities newEntry) \<and> truthy (holdingsPnl newEntry))
   \<and> processWallet testConfig happyWorld 0 newEntry [] =
     (Return (),
      [Log (ProcessingWallet 1 (ascii ''w'') 2),
       Goto (solscanUrl (ascii ''w'')), DetectVerification, WaitForTimeout 3000, TextContent,
       Log FoundTextContainingActivit, Log (FoundActivityCount (ascii ''5'')),
       Sleep 500,
       Goto (jupiterUrl (ascii ''w'')), DetectVerification, WaitForTimeout 3000, TextContent,
       WriteSheet 2 (ascii ''5'') (ascii ''1.50''),
       Log (UpdatedSheetRow 2 (ascii ''5'') (ascii ''1.50'')),
       Sleep 500])"
proof -
  have h1: "truthy (wallet newEntry)" by code_simp
  have h2: "\<not> (truthy (activities newEntry) \<and> truthy (holdingsPnl newEntry))" by code_simp
  have h3: "fetchActivities testConfig happyWorld (the (wallet newEntry)) (processingTrace 0 newEntry [])
      = (Return (ascii ''5''),
         [Log (ProcessingWallet 1 (ascii ''w'') 2),
          Goto (solscanUrl (ascii ''w'')), DetectVerification, WaitForTimeout 3000, TextContent,
          Log FoundTextContainingActivit, Log (FoundActivityCount (ascii ''5''))])
    \<and> fetchHoldingsPnl testConfig happyWorld (the (wallet newEntry))
        ([Log (ProcessingWallet 1 (ascii ''w'') 2),
          Goto (solscanUrl (ascii ''w'')), DetectVerification, WaitForTimeout 3000, TextContent,
          Log FoundTextContainingActivit, Log (FoundActivityCount (ascii ''5''))]
         @ [Sleep (rateLimitMs testConfig)])
      = (Return (ascii ''1.50''),
         [Log (ProcessingWallet 1 (ascii ''w'') 2),
          Goto (solscanUrl (ascii ''w'')), DetectVerification, WaitForTimeout 3000, TextContent,
          Log FoundTextContainingActivit, Log (FoundActivityCount (ascii ''5'')),
          Sleep 500,
          Goto (jupiterUrl (ascii ''w'')), DetectVerification, WaitForTimeout 3000, TextContent])
    \<and> write_error happyWorld
         [Log (ProcessingWallet 1 (ascii ''w'') 2),
          Goto (solscanUrl (ascii ''w'')), DetectVerification, WaitForTimeout 3000, TextContent,
          Log FoundTextContainingActivit, Log (FoundActivityCount (ascii ''5'')),
          Sleep 500,
          Goto (jupiterUrl (ascii ''w'')), DetectVerification, WaitForTimeout 3000, TextContent]
       = None"
    by code_simp
  have r: "rowIndex newEntry = 2" "rateLimitMs testConfig = 500"
    by (simp_all add: newEntry_def testConfig_def)
  from rate_limit_pauses[OF h1 h2, THEN conjunct1, rule_format, OF h3]
  have "processWallet testConfig happyWorld 0 newEntry [] =
     (Return (),
      [Log (ProcessingWallet 1 (ascii ''w'') 2),
       Goto (solscanUrl (ascii ''w'')), DetectVerification, WaitForTimeout 3000, TextContent,
       Log FoundTextContainingActivit, Log (FoundActivityCount (ascii ''5'')),
       Sleep 500,
       Goto (jupiterUrl (ascii ''w'')), DetectVerification, WaitForTimeout 3000, TextContent,
       WriteSheet 2 (ascii ''5'') (ascii ''1.50''),
       Log (UpdatedSheetRow 2 (ascii ''5'') (ascii ''1.50'')),
       Sleep 500])"
    by (simp add: r)
  with h1 h2 show ?thesis by (intro conjI)
qed

text \<open>
  Claim C8 as stated has a pause between the second fetch and the write, and pauses
  whether or not a step succeeded. With \<open>rateLimitMs = 500\<close>: the successful iteration
  goes from the second fetch to the write with no pause, and the run that fails has
  no pause of 500 milliseconds at all.
\<close>

theorem rate_limit_pauses_counterexample:
  "processWallet testConfig happyWorld 0 newEntry [] =
     (Return (),
      [Log (ProcessingWallet 1 (ascii ''w'') 2),
       Goto (solscanUrl (ascii ''w'')), DetectVerification, WaitForTimeout 3000, TextContent,
       Log FoundTextContainingActivit, Log (FoundActivityCount (ascii ''5'')),
       Sleep 500,
       Goto (jupiterUrl (ascii ''w'')), DetectVerification, WaitForTimeout 3000, TextContent,
       WriteSheet 2 (ascii ''5'') (ascii ''1.50''),
       Log (UpdatedSheetRow 2 (ascii ''5'') (ascii ''1.50'')),
       Sleep 500])
   \<and> main testConfig offlineWorld [newEntry] [] =
     (Return (),
      [Log (ProcessingWallet 1 (ascii ''w'') 2),
       Goto (solscanUrl (ascii ''w'')),
       Log (RetryingAfterFailure (ascii ''solscan-w'') 1 (Error ''net::ERR_INTERNET_DISCONNECTED'')),
       Sleep 2000,
       Goto (solscanUrl (ascii ''w'')),
       Log (RetryingAfterFailure (ascii ''solscan-w'') 2 (Error ''net::ERR_INTERNET_DISCONNECTED'')),
       Sleep 4000,
       Screenshot (ascii ''w'') (ascii ''solscan''),
       Log SavedFailureScreenshot,
       Log (FatalError (Error ''net::ERR_INTERNET_DISCONNECTED'')),
       Exit 1])"
  by code_simp

text \<open>
  Claim C9, as amended. When a fetch has exhausted its retries with the error \<open>err\<close>, the
  screenshot capture is called once. If the capture returns, \<open>Saved failure screenshot\<close>
  is logged and \<open>err\<close> is thrown. If the capture itself throws, its error is thrown in
  place of \<open>err\<close> and nothing is logged.
\<close>

theorem capture_failure_replaces_error:
  "(withRetries (solscanTask world w) (ascii ''solscan-'' @ w) (maxRetries cfg) tr = (Throw err, tr1) \<longrightarrow>
      fetchActivities cfg world w tr =
        (case screenshot_error world tr1 of
           None \<Rightarrow> (Throw err, tr1 @ [Screenshot w (ascii ''solscan''), Log SavedFailureScreenshot])
         | Some message \<Rightarrow> (Throw (Error message), tr1 @ [Screenshot w (ascii ''solscan'')])))
   \<and> (withRetries (jupiterTask world w) (ascii ''jupiter-'' @ w) (maxRetries cfg) tr = (Throw err, tr1) \<longrightarrow>
      fetchHoldingsPnl cfg world w tr =
        (case screenshot_error world tr1 of
           None \<Rightarrow> (Throw err, tr1 @ [Screenshot w (ascii ''jupiter''), Log SavedFailureScreenshot])
         | Some message \<Rightarrow> (Throw (Error message), tr1 @ [Screenshot w (ascii ''jupiter'')])))"
  by (simp add: fetchActivities_def fetchHoldingsPnl_def catchWithScreenshot_def
      captureFailureScreenshot_def split: option.splits)

text \<open>A portfolio page that never shows the label, and a disk that is full.\<close>

theorem capture_failure_replaces_error_witness:
  "withRetries (jupiterTask fullDiskWorld (ascii ''w'')) (ascii ''jupiter-'' @ ascii ''w'')
      (maxRetries testConfig) [] =
     (Throw (Error ''Unable to locate Holdings PnL value on page.''),
      [Goto (jupiterUrl (ascii ''w'')), DetectVerification, WaitForTimeout 3000, TextContent,
       Log (RetryingAfterFailure (ascii ''jupiter-w'') 1
              (Error ''Unable to locate Holdings PnL value on page.'')),
       Sleep 2000,
       Goto (jupiterUrl (ascii ''w'')), DetectVerification, WaitForTimeout 3000, TextContent,
       Log (RetryingAfterFailure (ascii ''jupiter-w'') 2
              (Error ''Unable to locate Holdings PnL value on page.'')),
       Sleep 4000])
   \<and> fetchHoldingsPnl testConfig fullDiskWorld (ascii ''w'') [] =
     (Throw (Error ''ENOSPC''),
      [Goto (jupiterUrl (ascii ''w'')), DetectVerification, WaitForTimeout 3000, TextContent,
       Log (RetryingAfterFailure (ascii ''jupiter-w'') 1
              (Error ''Unable to locate Holdings PnL value on page.'')),
       Sleep 2000,
       Goto (jupiterUrl (ascii ''w'')), DetectVerification, WaitForTimeout 3000, TextContent,
       Log (RetryingAfterFailure (ascii ''jupiter-w'') 2
              (Error ''Unable to locate Holdings PnL value on page.'')),
       Sleep 4000,
       Screenshot (ascii ''w'') (ascii ''jupiter'')])"
proof -
  have h: "withRetries (jupiterTask fullDiskWorld (ascii ''w'')) (ascii ''jupiter-'' @ ascii ''w'')
      (maxRetries testConfig) [] =
     (Throw (Error ''Unable to locate Holdings PnL value on page.''),
      [Goto (jupiterUrl (ascii ''w'')), DetectVerification, WaitForTimeout 3000, TextContent,
       Log (RetryingAfterFailure (ascii ''jupiter-w'') 1
              (Error ''Unable to locate Holdings PnL value on page.'')),
       Sleep 2000,
       Goto (jupiterUrl (ascii ''w'')), DetectVerification, WaitForTimeout 3000, TextContent,
       Log (RetryingAfterFailure (ascii ''jupiter-w'') 2
              (Error ''Unable to locate Holdings PnL value on page.'')),
       Sleep 4000])"
    by code_simp
  have s: "screenshot_error fullDiskWorld tr = Some ''ENOSPC''" for tr
    by (simp add: fullDiskWorld_def quietWorld_def)
  from capture_failure_replaces_error[of fullDiskWorld "ascii ''w''" testConfig "[]", THEN conjunct2,
      rule_format, OF h]
  have "fetchHoldingsPnl testConfig fullDiskWorld (ascii ''w'') [] =
     (Throw (Error ''ENOSPC''),
      [Goto (jupiterUrl (ascii ''w'')), DetectVerification, WaitForTimeout 3000, TextContent,
       Log (RetryingAfterFailure (ascii ''jupiter-w'') 1
              (Error ''Unable to locate Holdings PnL value on page.'')),
       Sleep 2000,
       Goto (jupiterUrl (ascii ''w'')), DetectVerification, WaitForTimeout 3000, TextContent,
       Log (RetryingAfterFailure (ascii ''jupiter-w'') 2
              (Error ''Unable to locate Holdings PnL value on page.'')),
       Sleep 4000,
       Screenshot (ascii ''w'') (ascii ''jupiter'')])"
    by (simp add: s)
  with h show ?thesis by (intro conjI)
qed

text \<open>
  Claim C9 as stated has the original extraction error reach the caller and the capture
  failure logged. The caller gets the error of the capture, and the attempted screenshot
  is the last event of the trace.
\<close>

theorem capture_failure_masks_extraction_error_counterexample:
  "fst (fetchHoldingsPnl testConfig fullDiskWorld (ascii ''w'') []) = Throw (Error ''ENOSPC'')
   \<and> fst (withRetries (jupiterTask fullDiskWorld (ascii ''w'')) (ascii ''jupiter-'' @ ascii ''w'')
          (maxRetries testConfig) []) =
       Throw (Error ''Unable to locate Holdings PnL value on page.'')
   \<and> last (snd (fetchHoldingsPnl testConfig fullDiskWorld (ascii ''w'') [])) =
       Screenshot (ascii ''w'') (ascii ''jupiter'')"
  by code_simp

end
